theory Spec2Isabelle
  imports Complex_Main
begin

section \<open>The \<open>github:actions:dispatch\<close> scaffolder action\<close>

text \<open>
  A shallow embedding of the handler of \<open>createGithubActionsDispatchAction\<close>
  (\<open>src/unnamed/part_000\<close>, lines 52 to 209). The handler is an \<open>async\<close> function
  that talks to the GitHub REST client, sleeps, logs, and sets outputs on the scaffolder
  context. Here it is a pure function of the three things it reads (the remote side and
  the libraries as a \<open>world\<close>, the process environment, the action input) that returns
  the chronological list of everything it did together with how it ended: \<open>Inr ()\<close> for
  a normal return, \<open>Inl e\<close> for a thrown error.
\<close>

subsection \<open>Data\<close>

text \<open>\<open>workflowId: z.union([z.string(), z.number()])\<close>.\<close>

datatype workflow_id = WorkflowFile string | WorkflowNumber nat

text \<open>
  \<open>ctx.input\<close>, after the schema of lines 22 to 50. An optional field is an \<open>option\<close>,
  \<open>None\<close> being \<open>undefined\<close>.
\<close>

record input =
  owner :: string
  repo :: string
  workflowId :: workflow_id
  branchOrTagName :: string
  workflowInputs :: "(string \<times> string) list option"
  token :: "string option"
  waitForCompletion :: "bool option"
  outputArtifactName :: "string option"

text \<open>The two variables of \<open>process.env\<close> the handler reads; \<open>None\<close> is an unset variable.\<close>

record env =
  GITHUB_TOKEN :: "string option"
  GH_TOKEN :: "string option"

text \<open>
  One element of \<open>data.workflow_runs\<close>, and the \<open>data\<close> of \<open>getWorkflowRun\<close>.
  \<open>head_branch\<close>, \<open>status\<close> and \<open>conclusion\<close> are \<open>string | null\<close> in the client's
  types; \<open>None\<close> is \<open>null\<close>. \<open>created_at\<close> is the timestamp string of the response.
\<close>

record workflow_run =
  run_id :: nat
  head_branch :: "string option"
  created_at :: string
  status :: "string option"
  conclusion :: "string option"

text \<open>One element of \<open>artifactsData.artifacts\<close>.\<close>

record artifact =
  artifact_name :: string
  artifact_id :: nat

type_synonym bytes = string

text \<open>An error thrown by the REST client, and one thrown by a library inside the \<open>try\<close>.\<close>

datatype request_error = HttpError nat
datatype js_error = JsError string

text \<open>
  The value \<open>JSON.parse\<close> returns. A number is a double; the only thing the handler asks
  of it is whether it is zero, so it is a real here (\<open>JSON.parse\<close> never yields NaN, and
  \<open>+0\<close> and \<open>-0\<close> are both falsy).
\<close>

datatype js_value =
    JNull
  | JBool bool
  | JNumber real
  | JString string
  | JArray "js_value list"
  | JObject "(string \<times> js_value) list"

text \<open>
  One entry of \<open>directory.files\<close>: its \<open>path\<close>, and what \<open>await file.buffer()\<close> followed
  by \<open>content.toString('utf8')\<close> gives (the read may throw).
\<close>

record zip_file =
  path :: string
  buffer :: "js_error + string"

text \<open>
  Everything outside the handler. A REST call either throws (\<open>Inl\<close>) or returns its
  \<open>data\<close> (\<open>Inr\<close>). \<open>listWorkflowRuns w i\<close> is what the call of loop index \<open>i\<close> returns,
  \<open>getWorkflowRun w rid a\<close> what the call for run \<open>rid\<close> at loop index \<open>a\<close> returns.
  \<open>Open_buffer\<close> is \<open>unzipper.Open.buffer\<close> (its \<open>directory.files\<close>), \<open>JSON_parse\<close> is
  \<open>JSON.parse\<close>, and \<open>Date_value s\<close> is \<open>+new Date(s)\<close> for the timestamps of the API.
\<close>

record world =
  createWorkflowDispatch :: "request_error + unit"
  listWorkflowRuns :: "nat \<Rightarrow> request_error + workflow_run list"
  getWorkflowRun :: "nat \<Rightarrow> nat \<Rightarrow> request_error + workflow_run"
  listWorkflowRunArtifacts :: "nat \<Rightarrow> request_error + artifact list"
  downloadArtifact :: "nat \<Rightarrow> request_error + bytes"
  Open_buffer :: "bytes \<Rightarrow> js_error + zip_file list"
  JSON_parse :: "string \<Rightarrow> js_error + js_value"
  Date_value :: "string \<Rightarrow> int"

subsection \<open>What the handler does, as events\<close>

text \<open>
  A request of the REST client with the parameters the handler passes:
  \<^item> \<open>CreateWorkflowDispatch owner repo workflow_id ref inputs\<close>
  \<^item> \<open>ListWorkflowRuns owner repo workflow_id event branch per_page\<close>
  \<^item> \<open>GetWorkflowRun owner repo run_id\<close>
  \<^item> \<open>ListWorkflowRunArtifacts owner repo run_id\<close>
  \<^item> \<open>DownloadArtifact owner repo artifact_id archive_format\<close>
\<close>

datatype request =
    CreateWorkflowDispatch string string workflow_id string "(string \<times> string) list option"
  | ListWorkflowRuns string string workflow_id string string nat
  | GetWorkflowRun string string nat
  | ListWorkflowRunArtifacts string string nat
  | DownloadArtifact string string nat string

datatype level = Info | Warn

text \<open>
  The log lines of the handler, one constructor for each template, carrying the values
  the template interpolates:
  \<^item> \<open>Dispatching wid owner repo ref\<close>: "Dispatching GitHub workflow ... on .../...@..."
  \<^item> \<open>Dispatched wid\<close>: "Workflow ... dispatched successfully"
  \<^item> \<open>NotWaiting\<close>: "Not waiting for completion (waitForCompletion is false)"
  \<^item> \<open>WaitingForRun\<close>: "Waiting for workflow run to be created..."
  \<^item> \<open>RunNotFoundYet\<close>: "Workflow run not found yet, retrying in 5 seconds..."
  \<^item> \<open>FoundRun rid\<close>: "Found workflow run: ..."
  \<^item> \<open>PollingRun\<close>: "Polling workflow run for completion..."
  \<^item> \<open>AttemptStatus n st secs\<close>: "Attempt n: Workflow status = st, waiting secs s..."
  \<^item> \<open>RunCompleted c\<close>: "Workflow run completed with conclusion: ..."
  \<^item> \<open>FetchingArtifact name rid\<close>: "Fetching output artifact '...' for run ..."
  \<^item> \<open>ArtifactNotFound name\<close>: "Artifact '...' not found"
  \<^item> \<open>JsonParsed\<close>: "Output artifact JSON parsed successfully"
  \<^item> \<open>NoJsonFile\<close>: "No JSON file found inside output artifact ZIP"
  \<^item> \<open>ExtractFailed e\<close>: "Failed to extract or parse output artifact: ..."
\<close>

datatype message =
    Dispatching workflow_id string string string
  | Dispatched workflow_id
  | NotWaiting
  | WaitingForRun
  | RunNotFoundYet
  | FoundRun nat
  | PollingRun
  | AttemptStatus nat "string option" nat
  | RunCompleted "string option"
  | FetchingArtifact string nat
  | ArtifactNotFound string
  | JsonParsed
  | NoJsonFile
  | ExtractFailed js_error

text \<open>\<open>ctx.output('conclusion', ...)\<close> and \<open>ctx.output('outputs', ...)\<close>.\<close>

datatype ctx_output = Conclusion "string option" | Outputs js_value

text \<open>
  \<open>NewClient t\<close> is \<open>new Octokit(getOctokitOptions(t))\<close>, \<open>Call r\<close> a request sent,
  \<open>Log l m\<close> a line given to \<open>ctx.logger\<close>, \<open>Sleep ms\<close> an awaited \<open>setTimeout\<close>,
  \<open>Output o\<close> a call of \<open>ctx.output\<close>.
\<close>

datatype event =
    NewClient string
  | Call request
  | Log level message
  | Sleep nat
  | Output ctx_output

text \<open>
  The errors the handler ends with. The first three are the \<open>new Error(...)\<close> of lines
  67, 118 and 151, under the names the specification gives them; \<open>RequestError\<close> is an
  error of the REST client, which the handler does not catch.
\<close>

datatype error =
    MissingCredentialError
  | RunNotFoundError
  | DispatchTimeoutError
  | RequestError request_error

type_synonym 'a io = "event list \<times> (error + 'a)"

text \<open>Sequencing: the events of both parts in order; a throw ends the sequence.\<close>

definition and_then :: "'a io \<Rightarrow> ('a \<Rightarrow> 'b io) \<Rightarrow> 'b io" where
  "and_then m f =
     (case snd m of
        Inl e \<Rightarrow> (fst m, Inl e)
      | Inr x \<Rightarrow> (fst m @ fst (f x), snd (f x)))"

definition emit :: "event list \<Rightarrow> unit io" where
  "emit evs = (evs, Inr ())"

definition throw :: "error \<Rightarrow> 'a io" where
  "throw e = ([], Inl e)"

definition return :: "'a \<Rightarrow> 'a io" where
  "return x = ([], Inr x)"

text \<open>An awaited request: the call is made, and its error, if any, is thrown on.\<close>

definition call :: "request \<Rightarrow> request_error + 'a \<Rightarrow> 'a io" where
  "call r resp =
     ([Call r], case resp of Inl e \<Rightarrow> Inl (RequestError e) | Inr x \<Rightarrow> Inr x)"

subsection \<open>The credential (lines 64 to 70)\<close>

text \<open>\<open>a ?? b\<close>: \<open>b\<close> only when \<open>a\<close> is \<open>undefined\<close> (or \<open>null\<close>).\<close>

definition nullish :: "'a option \<Rightarrow> 'a option \<Rightarrow> 'a option" where
  "nullish a b = (case a of Some x \<Rightarrow> Some x | None \<Rightarrow> b)"

text \<open>
  Lines 64 and 65, the constant \<open>token\<close>:
  \<open>providedToken ?? process.env.GITHUB_TOKEN ?? process.env.GH_TOKEN\<close>.
\<close>

definition resolved_token :: "env \<Rightarrow> input \<Rightarrow> string option" where
  "resolved_token ev inp = nullish (nullish (token inp) (GITHUB_TOKEN ev)) (GH_TOKEN ev)"

subsection \<open>Run discovery (lines 94 to 119)\<close>

definition maxRunPollAttempts :: nat where
  "maxRunPollAttempts = 12"

text \<open>
  \<open>Array.prototype.sort\<close> with a comparison function \<open>cmp\<close>: the elements in an order
  where \<open>a\<close> stands before \<open>b\<close> when \<open>cmp a b < 0\<close>, elements that compare equal keeping
  the order they had (the sort is stable since ECMAScript 2019). Here by insertion: \<open>x\<close>
  goes before the first \<open>y\<close> with \<open>cmp x y \<le> 0\<close>.
\<close>

fun insert_by :: "('a \<Rightarrow> 'a \<Rightarrow> int) \<Rightarrow> 'a \<Rightarrow> 'a list \<Rightarrow> 'a list" where
  "insert_by cmp x [] = [x]"
| "insert_by cmp x (y # ys) =
     (if cmp x y \<le> 0 then x # y # ys else y # insert_by cmp x ys)"

fun sort_by :: "('a \<Rightarrow> 'a \<Rightarrow> int) \<Rightarrow> 'a list \<Rightarrow> 'a list" where
  "sort_by cmp [] = []"
| "sort_by cmp (x # xs) = insert_by cmp x (sort_by cmp xs)"

text \<open>
  Lines 106 to 111: the runs whose \<open>head_branch\<close> is the requested ref, sorted with the
  comparison \<open>(a, b) => +new Date(b.created_at) - +new Date(a.created_at)\<close> (newest
  first), and of these the element at index 0, \<open>undefined\<close> (\<open>None\<close>) when there is none.
  The timestamps of the API are valid dates, so \<open>Date_value\<close> is a number, never NaN.
\<close>

definition select_run :: "world \<Rightarrow> input \<Rightarrow> workflow_run list \<Rightarrow> workflow_run option" where
  "select_run w inp workflow_runs =
     (case sort_by (\<lambda>a b. Date_value w (created_at b) - Date_value w (created_at a))
             (filter (\<lambda>run. head_branch run = Some (branchOrTagName inp)) workflow_runs) of
        [] \<Rightarrow> None
      | run # _ \<Rightarrow> Some run)"

definition list_runs_request :: "input \<Rightarrow> request" where
  "list_runs_request inp =
     ListWorkflowRuns (owner inp) (repo inp) (workflowId inp) ''workflow_dispatch''
       (branchOrTagName inp) 5"

text \<open>The loop of lines 97 to 115 from index \<open>i\<close> on; its value is \<open>workflowRun\<close>.\<close>

function find_workflow_run :: "world \<Rightarrow> input \<Rightarrow> nat \<Rightarrow> workflow_run option io" where
  "find_workflow_run w inp i =
     (if i < maxRunPollAttempts then
        and_then (call (list_runs_request inp) (listWorkflowRuns w i)) (\<lambda>workflow_runs.
          case select_run w inp workflow_runs of
            Some workflowRun \<Rightarrow> return (Some workflowRun)
          | None \<Rightarrow>
              and_then (emit [Log Info RunNotFoundYet, Sleep 5000]) (\<lambda>_.
                find_workflow_run w inp (Suc i)))
      else return None)"
  by pat_completeness auto
termination
  by (relation "measure (\<lambda>(w, inp, i). maxRunPollAttempts - i)") auto

subsection \<open>Completion polling (lines 124 to 152)\<close>

definition maxPollAttempts :: nat where
  "maxPollAttempts = 60"

definition pollIntervalMs :: nat where
  "pollIntervalMs = 5000"

definition get_run_request :: "input \<Rightarrow> nat \<Rightarrow> request" where
  "get_run_request inp runId = GetWorkflowRun (owner inp) (repo inp) runId"

text \<open>
  The loop of lines 131 to 148 from index \<open>attempt\<close> on. Its value is \<open>Some run\<close> when
  it left through the \<open>break\<close> (\<open>completed = true\<close>, \<open>runData = run\<close>) and \<open>None\<close> when
  the attempts ran out (\<open>completed\<close> still false).
\<close>

function poll_completed :: "world \<Rightarrow> input \<Rightarrow> nat \<Rightarrow> nat \<Rightarrow> workflow_run option io" where
  "poll_completed w inp runId attempt =
     (if attempt < maxPollAttempts then
        and_then (call (get_run_request inp runId) (getWorkflowRun w runId attempt)) (\<lambda>run.
          if status run = Some ''completed'' then return (Some run)
          else
            and_then
              (emit [Log Info (AttemptStatus (attempt + 1) (status run) (pollIntervalMs div 1000)),
                     Sleep pollIntervalMs]) (\<lambda>_.
                poll_completed w inp runId (Suc attempt)))
      else return None)"
  by pat_completeness auto
termination
  by (relation "measure (\<lambda>(w, inp, runId, attempt). maxPollAttempts - attempt)") auto

subsection \<open>Artifact extraction (lines 159 to 208)\<close>

text \<open>\<open>s.endsWith(suffix)\<close>.\<close>

definition endsWith :: "string \<Rightarrow> string \<Rightarrow> bool" where
  "endsWith s suffix = (take (length suffix) (rev s) = rev suffix)"

text \<open>The truthiness of a parsed value, as \<open>if (outputJson)\<close> tests it.\<close>

fun truthy :: "js_value \<Rightarrow> bool" where
  "truthy JNull = False"
| "truthy (JBool b) = b"
| "truthy (JNumber n) = (n \<noteq> 0)"
| "truthy (JString s) = (s \<noteq> [])"
| "truthy (JArray xs) = True"
| "truthy (JObject kvs) = True"

text \<open>
  The loop of lines 192 to 198. Its value is \<open>outputJson\<close>: \<open>None\<close> is \<open>undefined\<close>, no
  entry with a path ending in \<open>.json\<close>. Reading the entry and parsing it may throw.
\<close>

fun scan_files :: "world \<Rightarrow> zip_file list \<Rightarrow> js_error + js_value option" where
  "scan_files w [] = Inr None"
| "scan_files w (file # files) =
     (if endsWith (path file) ''.json'' then
        (case buffer file of
           Inl e \<Rightarrow> Inl e
         | Inr content \<Rightarrow>
             (case JSON_parse w content of
                Inl e \<Rightarrow> Inl e
              | Inr v \<Rightarrow> Inr (Some v)))
      else scan_files w files)"

text \<open>The body of the \<open>try\<close>, lines 188 to 205: the events it adds, or the error it throws.\<close>

definition try_extract :: "world \<Rightarrow> bytes \<Rightarrow> js_error + event list" where
  "try_extract w zipData =
     (case Open_buffer w zipData of
        Inl e \<Rightarrow> Inl e
      | Inr files \<Rightarrow>
          (case scan_files w files of
             Inl e \<Rightarrow> Inl e
           | Inr outputJson \<Rightarrow>
               (case outputJson of
                  None \<Rightarrow> Inr [Log Warn NoJsonFile]
                | Some v \<Rightarrow>
                    if truthy v then Inr [Log Info JsonParsed, Output (Outputs v)]
                    else Inr [Log Warn NoJsonFile])))"

text \<open>The \<open>try\<close> with its \<open>catch\<close>, lines 187 to 208: it never throws.\<close>

definition extract_output :: "world \<Rightarrow> bytes \<Rightarrow> unit io" where
  "extract_output w zipData =
     (case try_extract w zipData of
        Inl e \<Rightarrow> emit [Log Warn (ExtractFailed e)]
      | Inr evs \<Rightarrow> emit evs)"

definition list_artifacts_request :: "input \<Rightarrow> nat \<Rightarrow> request" where
  "list_artifacts_request inp runId = ListWorkflowRunArtifacts (owner inp) (repo inp) runId"

definition download_request :: "input \<Rightarrow> nat \<Rightarrow> request" where
  "download_request inp aid = DownloadArtifact (owner inp) (repo inp) aid ''zip''"

text \<open>
  Lines 160 to 208. \<open>if (!outputArtifactName) return\<close> leaves for an absent name and
  for the empty string alike.
\<close>

definition fetch_artifact :: "world \<Rightarrow> input \<Rightarrow> nat \<Rightarrow> unit io" where
  "fetch_artifact w inp runId =
     (case outputArtifactName inp of
        None \<Rightarrow> return ()
      | Some name \<Rightarrow>
          if name = [] then return ()
          else
            and_then (emit [Log Info (FetchingArtifact name runId)]) (\<lambda>_.
            and_then (call (list_artifacts_request inp runId) (listWorkflowRunArtifacts w runId))
              (\<lambda>artifacts.
            case find (\<lambda>a. artifact_name a = name) artifacts of
              None \<Rightarrow> emit [Log Warn (ArtifactNotFound name)]
            | Some artifact \<Rightarrow>
                and_then
                  (call (download_request inp (artifact_id artifact))
                     (downloadArtifact w (artifact_id artifact)))
                  (\<lambda>zipData. extract_output w zipData))))"

subsection \<open>The handler (lines 52 to 209)\<close>

text \<open>Lines 121 to 208, once \<open>workflowRun\<close> is known.\<close>

definition await_run :: "world \<Rightarrow> input \<Rightarrow> workflow_run \<Rightarrow> unit io" where
  "await_run w inp workflowRun =
     (let runId = run_id workflowRun in
      and_then (emit [Log Info (FoundRun runId), Log Info PollingRun]) (\<lambda>_.
      and_then (poll_completed w inp runId 0) (\<lambda>completed.
      case completed of
        None \<Rightarrow> throw DispatchTimeoutError
      | Some runData \<Rightarrow>
          and_then
            (emit [Log Info (RunCompleted (conclusion runData)),
                   Output (Conclusion (conclusion runData))]) (\<lambda>_.
            fetch_artifact w inp runId))))"

definition dispatch_request :: "input \<Rightarrow> request" where
  "dispatch_request inp =
     CreateWorkflowDispatch (owner inp) (repo inp) (workflowId inp) (branchOrTagName inp)
       (workflowInputs inp)"

definition handler :: "world \<Rightarrow> env \<Rightarrow> input \<Rightarrow> unit io" where
  "handler w ev inp =
     (case resolved_token ev inp of
        None \<Rightarrow> throw MissingCredentialError
      | Some tok \<Rightarrow>
          if tok = [] then throw MissingCredentialError
          else
            and_then
              (emit [NewClient tok,
                     Log Info (Dispatching (workflowId inp) (owner inp) (repo inp)
                                 (branchOrTagName inp))]) (\<lambda>_.
            and_then (call (dispatch_request inp) (createWorkflowDispatch w)) (\<lambda>_.
            and_then (emit [Log Info (Dispatched (workflowId inp))]) (\<lambda>_.
            if \<not> (case waitForCompletion inp of None \<Rightarrow> False | Some b \<Rightarrow> b) then
              emit [Log Info NotWaiting]
            else
              and_then (emit [Log Info WaitingForRun]) (\<lambda>_.
              and_then (find_workflow_run w inp 0) (\<lambda>found.
              case found of
                None \<Rightarrow> throw RunNotFoundError
              | Some workflowRun \<Rightarrow> await_run w inp workflowRun))))))"

subsection \<open>Reading a list of events\<close>

text \<open>The requests sent, in order.\<close>

fun calls :: "event list \<Rightarrow> request list" where
  "calls [] = []"
| "calls (Call r # es) = r # calls es"
| "calls (e # es) = calls es"

text \<open>The requests sent and the delays awaited, in order.\<close>

fun timed :: "event \<Rightarrow> bool" where
  "timed (Call r) = True"
| "timed (Sleep ms) = True"
| "timed e = False"

definition timeline :: "event list \<Rightarrow> event list" where
  "timeline es = filter timed es"

text \<open>What was given to \<open>ctx.output\<close>, in order.\<close>

fun outputs_of :: "event list \<Rightarrow> ctx_output list" where
  "outputs_of [] = []"
| "outputs_of (Output v # es) = v # outputs_of es"
| "outputs_of (e # es) = outputs_of es"

text \<open>The lines logged at level \<open>warn\<close>, in order.\<close>

fun warnings :: "event list \<Rightarrow> message list" where
  "warnings [] = []"
| "warnings (Log Warn m # es) = m # warnings es"
| "warnings (e # es) = warnings es"

fun is_get_run :: "request \<Rightarrow> bool" where
  "is_get_run (GetWorkflowRun ow rp rid) = True"
| "is_get_run r = False"

fun is_sleep :: "event \<Rightarrow> bool" where
  "is_sleep (Sleep ms) = True"
| "is_sleep e = False"

subsection \<open>Names for the stretches of events the handler produces\<close>

text \<open>One unsuccessful discovery attempt, and the timed events of one unsuccessful poll.\<close>

definition discovery_round :: "input \<Rightarrow> event list" where
  "discovery_round inp = [Call (list_runs_request inp), Log Info RunNotFoundYet, Sleep 5000]"

definition poll_round :: "input \<Rightarrow> nat \<Rightarrow> event list" where
  "poll_round inp rid = [Call (get_run_request inp rid), Sleep 5000]"

text \<open>The events up to the dispatch request, up to the discovery loop, and before the polling loop.\<close>

definition dispatch_prefix :: "string \<Rightarrow> input \<Rightarrow> event list" where
  "dispatch_prefix tok inp =
     [NewClient tok,
      Log Info (Dispatching (workflowId inp) (owner inp) (repo inp) (branchOrTagName inp)),
      Call (dispatch_request inp)]"

definition waiting_prefix :: "string \<Rightarrow> input \<Rightarrow> event list" where
  "waiting_prefix tok inp =
     dispatch_prefix tok inp @ [Log Info (Dispatched (workflowId inp)), Log Info WaitingForRun]"

definition found_prefix :: "nat \<Rightarrow> event list" where
  "found_prefix rid = [Log Info (FoundRun rid), Log Info PollingRun]"

subsection \<open>The specification's reading of the credential\<close>

text \<open>
  The credential as the specification words it, for comparison with \<open>resolved_token\<close>:
  the explicit value when given, otherwise the first non-empty of the two variables.
\<close>

definition first_non_empty :: "string option list \<Rightarrow> string option" where
  "first_non_empty vs =
     (case filter (\<lambda>v. v \<noteq> None \<and> v \<noteq> Some []) vs of [] \<Rightarrow> None | v # _ \<Rightarrow> v)"

definition spec_credential :: "env \<Rightarrow> input \<Rightarrow> string option" where
  "spec_credential ev inp =
     (case token inp of
        Some t \<Rightarrow> Some t
      | None \<Rightarrow> first_non_empty [GITHUB_TOKEN ev, GH_TOKEN ev])"

subsection \<open>Concrete inputs\<close>

text \<open>
  A request that waits and asks for the artifact \<open>result\<close>, an empty environment, and a
  remote side on which the run appears on the first listing, is completed on the first
  poll, and has the artifact with one JSON entry.
\<close>

definition inp_ex :: input where
  "inp_ex =
     \<lparr>owner = ''acme'', repo = ''app'', workflowId = WorkflowFile ''ci.yml'',
      branchOrTagName = ''main'', workflowInputs = None, token = Some ''t0k'',
      waitForCompletion = Some True, outputArtifactName = Some ''result''\<rparr>"

definition env_none :: env where
  "env_none = \<lparr>GITHUB_TOKEN = None, GH_TOKEN = None\<rparr>"

definition run_ex :: workflow_run where
  "run_ex =
     \<lparr>run_id = 42, head_branch = Some ''main'', created_at = ''2024-01-02T00:00:00Z'',
      status = Some ''queued'', conclusion = None\<rparr>"

definition run_done :: workflow_run where
  "run_done = run_ex\<lparr>status := Some ''completed'', conclusion := Some ''success''\<rparr>"

definition artifact_ex :: artifact where
  "artifact_ex = \<lparr>artifact_name = ''result'', artifact_id = 7\<rparr>"

definition world_ex :: world where
  "world_ex =
     \<lparr>createWorkflowDispatch = Inr (),
      listWorkflowRuns = (\<lambda>i. Inr [run_ex]),
      getWorkflowRun = (\<lambda>rid a. Inr run_done),
      listWorkflowRunArtifacts = (\<lambda>rid. Inr [artifact_ex]),
      downloadArtifact = (\<lambda>aid. Inr ''PK''),
      Open_buffer = (\<lambda>b. Inr [\<lparr>path = ''result.json'', buffer = Inr ''[1]''\<rparr>]),
      JSON_parse =
        (\<lambda>s. if s = ''[1]'' then Inr (JArray [JNumber 1])
             else if s = ''0'' then Inr (JNumber 0)
             else Inl (JsError ''SyntaxError'')),
      Date_value =
        (\<lambda>s. if s = ''2024-01-01T00:00:00Z'' then 1704067200000
             else if s = ''2024-01-02T00:00:00Z'' then 1704153600000
             else 0)\<rparr>"

section \<open>Lemmas\<close>

subsection \<open>Sequencing, the readers, and the phases of the handler\<close>


lemma and_then_emit [simp]: "and_then (emit evs) f = (evs @ fst (f ()), snd (f ()))"
  by (simp add: and_then_def emit_def)

lemma and_then_return [simp]: "and_then (return x) f = f x"
  by (simp add: and_then_def return_def)

lemma and_then_call_Inr [simp]:
  "and_then (call r (Inr x)) f = (Call r # fst (f x), snd (f x))"
  by (simp add: and_then_def call_def)

lemma and_then_call_Inl [simp]:
  "and_then (call r (Inl e)) f = ([Call r], Inl (RequestError e))"
  by (simp add: and_then_def call_def)

lemma calls_append [simp]: "calls (xs @ ys) = calls xs @ calls ys"
  by (induction xs rule: calls.induct) simp_all

lemma outputs_of_append [simp]: "outputs_of (xs @ ys) = outputs_of xs @ outputs_of ys"
  by (induction xs rule: outputs_of.induct) simp_all

lemma warnings_append [simp]: "warnings (xs @ ys) = warnings xs @ warnings ys"
  by (induction xs rule: warnings.induct) simp_all

lemma set_insert_by [simp]: "set (insert_by cmp x ys) = insert x (set ys)"
  by (induction ys) auto

lemma set_sort_by [simp]: "set (sort_by cmp xs) = set xs"
  by (induction xs) auto

lemma sort_by_Nil_iff: "sort_by cmp xs = [] \<longleftrightarrow> xs = []"
  by (metis set_sort_by set_empty)

lemma select_run_None_iff:
  "select_run w inp runs = None \<longleftrightarrow>
     (\<forall>run\<in>set runs. head_branch run \<noteq> Some (branchOrTagName inp))"
proof -
  let ?m = "filter (\<lambda>run. head_branch run = Some (branchOrTagName inp)) runs"
  let ?cmp = "\<lambda>a b. Date_value w (created_at b) - Date_value w (created_at a)"
  have "select_run w inp runs = None \<longleftrightarrow> sort_by ?cmp ?m = []"
    by (simp add: select_run_def split: list.splits)
  also have "\<dots> \<longleftrightarrow> ?m = []" by (rule sort_by_Nil_iff)
  also have "\<dots> \<longleftrightarrow> (\<forall>run\<in>set runs. head_branch run \<noteq> Some (branchOrTagName inp))"
    by (simp add: filter_empty_conv)
  finally show ?thesis .
qed

text \<open>The head of a sorted list precedes (in the comparator's sense) everything.\<close>

lemma hd_insert_by:
  "hd (insert_by cmp x ys) = (if ys = [] then x else if cmp x (hd ys) \<le> 0 then x else hd ys)"
  by (cases ys) auto

lemma insert_by_not_Nil [simp]: "insert_by cmp x ys \<noteq> []"
  by (cases ys) auto

lemma hd_sort_by_newest:
  "xs \<noteq> [] \<Longrightarrow> \<forall>y\<in>set xs. f y \<le> f (hd (sort_by (\<lambda>a b. f b - f a) xs))"
proof (induction xs)
  case Nil
  then show ?case by simp
next
  case (Cons x xs)
  show ?case
  proof (cases "xs = []")
    case True
    then show ?thesis by simp
  next
    case False
    with Cons.IH have ih: "\<forall>y\<in>set xs. f y \<le> f (hd (sort_by (\<lambda>a b. f b - f a) xs))"
      by simp
    from False have ne: "sort_by (\<lambda>a b. f b - f a) xs \<noteq> []"
      by (simp add: sort_by_Nil_iff)
    show ?thesis
      using ih ne by (auto simp: hd_insert_by) 
  qed
qed

lemma select_run_Some:
  assumes "select_run w inp runs = Some sel"
  shows "sel \<in> set runs" and "head_branch sel = Some (branchOrTagName inp)"
    and "\<forall>run\<in>set runs. head_branch run = Some (branchOrTagName inp) \<longrightarrow>
           Date_value w (created_at run) \<le> Date_value w (created_at sel)"
proof -
  let ?m = "filter (\<lambda>run. head_branch run = Some (branchOrTagName inp)) runs"
  let ?f = "\<lambda>run. Date_value w (created_at run)"
  let ?s = "sort_by (\<lambda>a b. ?f b - ?f a) ?m"
  from assms have ne: "?s \<noteq> []" and sel: "sel = hd ?s"
    by (auto simp: select_run_def split: list.splits)
  from ne have "hd ?s \<in> set ?s" by (rule hd_in_set)
  with sel have mem: "sel \<in> set ?m" by simp
  from mem show "sel \<in> set runs" by simp
  from mem show "head_branch sel = Some (branchOrTagName inp)" by simp
  from ne have "?m \<noteq> []" by (simp add: sort_by_Nil_iff)
  then have "\<forall>y\<in>set ?m. ?f y \<le> ?f (hd ?s)" by (rule hd_sort_by_newest)
  with sel show "\<forall>run\<in>set runs. head_branch run = Some (branchOrTagName inp) \<longrightarrow>
           Date_value w (created_at run) \<le> Date_value w (created_at sel)"
    by auto
qed


declare find_workflow_run.simps [simp del] poll_completed.simps [simp del]

lemma find_workflow_run_exhausted:
  "maxRunPollAttempts \<le> i \<Longrightarrow> find_workflow_run w inp i = ([], Inr None)"
  by (subst find_workflow_run.simps) (simp add: return_def)

lemma find_workflow_run_found:
  "i < maxRunPollAttempts \<Longrightarrow> listWorkflowRuns w i = Inr runs \<Longrightarrow>
   select_run w inp runs = Some sel \<Longrightarrow>
   find_workflow_run w inp i = ([Call (list_runs_request inp)], Inr (Some sel))"
  by (subst find_workflow_run.simps) (simp add: return_def)

lemma find_workflow_run_retry:
  "i < maxRunPollAttempts \<Longrightarrow> listWorkflowRuns w i = Inr runs \<Longrightarrow>
   select_run w inp runs = None \<Longrightarrow>
   find_workflow_run w inp i =
     (discovery_round inp @ fst (find_workflow_run w inp (Suc i)),
      snd (find_workflow_run w inp (Suc i)))"
  by (subst find_workflow_run.simps) (simp add: discovery_round_def)

lemma find_workflow_run_error:
  "i < maxRunPollAttempts \<Longrightarrow> listWorkflowRuns w i = Inl e \<Longrightarrow>
   find_workflow_run w inp i = ([Call (list_runs_request inp)], Inl (RequestError e))"
  by (subst find_workflow_run.simps) simp

lemma find_none_from:
  "maxRunPollAttempts - i = n \<Longrightarrow>
   \<forall>j. i \<le> j \<and> j < maxRunPollAttempts \<longrightarrow>
     (\<exists>runs. listWorkflowRuns w j = Inr runs \<and> select_run w inp runs = None) \<Longrightarrow>
   find_workflow_run w inp i = (concat (replicate n (discovery_round inp)), Inr None)"
proof (induction n arbitrary: i)
  case 0
  then show ?case by (simp add: find_workflow_run_exhausted)
next
  case (Suc n)
  from Suc.prems(1) have lt: "i < maxRunPollAttempts" by simp
  with Suc.prems(2) obtain runs where
    r: "listWorkflowRuns w i = Inr runs" "select_run w inp runs = None" by blast
  from Suc.prems(1) have "maxRunPollAttempts - Suc i = n" by simp
  moreover from Suc.prems(2) have "\<forall>j. Suc i \<le> j \<and> j < maxRunPollAttempts \<longrightarrow>
     (\<exists>runs. listWorkflowRuns w j = Inr runs \<and> select_run w inp runs = None)" by simp
  ultimately have "find_workflow_run w inp (Suc i) =
      (concat (replicate n (discovery_round inp)), Inr None)" by (rule Suc.IH)
  with lt r show ?case by (simp add: find_workflow_run_retry)
qed

lemma find_some_from:
  "k - i = n \<Longrightarrow> i \<le> k \<Longrightarrow> k < maxRunPollAttempts \<Longrightarrow>
   \<forall>j. i \<le> j \<and> j < k \<longrightarrow>
     (\<exists>runs. listWorkflowRuns w j = Inr runs \<and> select_run w inp runs = None) \<Longrightarrow>
   listWorkflowRuns w k = Inr page \<Longrightarrow> select_run w inp page = Some sel \<Longrightarrow>
   find_workflow_run w inp i =
     (concat (replicate n (discovery_round inp)) @ [Call (list_runs_request inp)],
      Inr (Some sel))"
proof (induction n arbitrary: i)
  case 0
  then have "i = k" by simp
  with 0 show ?case by (simp add: find_workflow_run_found)
next
  case (Suc n)
  from Suc.prems have lt: "i < k" "i < maxRunPollAttempts" by simp_all
  with Suc.prems(4) obtain runs where
    r: "listWorkflowRuns w i = Inr runs" "select_run w inp runs = None" by blast
  have "find_workflow_run w inp (Suc i) =
     (concat (replicate n (discovery_round inp)) @ [Call (list_runs_request inp)],
      Inr (Some sel))"
  proof (rule Suc.IH)
    show "k - Suc i = n" using Suc.prems(1) by simp
    show "Suc i \<le> k" using lt by simp
    show "k < maxRunPollAttempts" by (rule Suc.prems(3))
    show "\<forall>j. Suc i \<le> j \<and> j < k \<longrightarrow>
     (\<exists>runs. listWorkflowRuns w j = Inr runs \<and> select_run w inp runs = None)"
      using Suc.prems(4) by simp
    show "listWorkflowRuns w k = Inr page" by (rule Suc.prems(5))
    show "select_run w inp page = Some sel" by (rule Suc.prems(6))
  qed
  with lt r show ?case by (simp add: find_workflow_run_retry)
qed

lemma find_events_from:
  "maxRunPollAttempts - i = n \<Longrightarrow>
   set (fst (find_workflow_run w inp i)) \<subseteq> set (discovery_round inp)"
proof (induction n arbitrary: i)
  case 0
  then show ?case by (simp add: find_workflow_run_exhausted)
next
  case (Suc n)
  then have lt: "i < maxRunPollAttempts" and ih:
    "set (fst (find_workflow_run w inp (Suc i))) \<subseteq> set (discovery_round inp)" by simp_all
  show ?case
  proof (cases "listWorkflowRuns w i")
    case (Inl e)
    with lt show ?thesis by (simp add: find_workflow_run_error discovery_round_def)
  next
    case (Inr runs)
    show ?thesis
    proof (cases "select_run w inp runs")
      case None
      with lt Inr ih show ?thesis by (simp add: find_workflow_run_retry)
    next
      case (Some sel)
      with lt Inr show ?thesis by (simp add: find_workflow_run_found discovery_round_def)
    qed
  qed
qed

lemma find_selected_from:
  "maxRunPollAttempts - i = n \<Longrightarrow> snd (find_workflow_run w inp i) = Inr (Some sel) \<Longrightarrow>
   \<exists>j runs. i \<le> j \<and> j < maxRunPollAttempts \<and> listWorkflowRuns w j = Inr runs \<and>
     select_run w inp runs = Some sel"
proof (induction n arbitrary: i)
  case 0
  then show ?case by (simp add: find_workflow_run_exhausted)
next
  case (Suc n)
  then have lt: "i < maxRunPollAttempts" by simp
  show ?case
  proof (cases "listWorkflowRuns w i")
    case (Inl e)
    with lt Suc.prems(2) show ?thesis by (simp add: find_workflow_run_error)
  next
    case (Inr runs)
    show ?thesis
    proof (cases "select_run w inp runs")
      case None
      with lt Inr Suc.prems(2) have "snd (find_workflow_run w inp (Suc i)) = Inr (Some sel)"
        by (simp add: find_workflow_run_retry)
      moreover from Suc.prems(1) have "maxRunPollAttempts - Suc i = n" by simp
      ultimately obtain j runs' where "Suc i \<le> j" "j < maxRunPollAttempts"
        "listWorkflowRuns w j = Inr runs'" "select_run w inp runs' = Some sel"
        using Suc.IH by blast
      then show ?thesis by (metis Suc_leD)
    next
      case (Some sel')
      with lt Inr Suc.prems(2) have "sel' = sel" by (simp add: find_workflow_run_found)
      with lt Inr Some show ?thesis by blast
    qed
  qed
qed


lemma timeline_append [simp]: "timeline (xs @ ys) = timeline xs @ timeline ys"
  by (simp add: timeline_def)

lemma timeline_Nil [simp]: "timeline [] = []"
  by (simp add: timeline_def)

lemma timeline_Cons [simp]:
  "timeline (e # es) = (if timed e then e # timeline es else timeline es)"
  by (simp add: timeline_def)

lemma poll_completed_exhausted:
  "maxPollAttempts \<le> a \<Longrightarrow> poll_completed w inp rid a = ([], Inr None)"
  by (subst poll_completed.simps) (simp add: return_def)

lemma poll_completed_done:
  "a < maxPollAttempts \<Longrightarrow> getWorkflowRun w rid a = Inr run \<Longrightarrow>
   status run = Some ''completed'' \<Longrightarrow>
   poll_completed w inp rid a = ([Call (get_run_request inp rid)], Inr (Some run))"
  by (subst poll_completed.simps) (simp add: return_def)

lemma poll_completed_wait:
  "a < maxPollAttempts \<Longrightarrow> getWorkflowRun w rid a = Inr run \<Longrightarrow>
   status run \<noteq> Some ''completed'' \<Longrightarrow>
   poll_completed w inp rid a =
     ([Call (get_run_request inp rid), Log Info (AttemptStatus (a + 1) (status run) 5),
       Sleep 5000] @ fst (poll_completed w inp rid (Suc a)),
      snd (poll_completed w inp rid (Suc a)))"
  by (subst poll_completed.simps) (simp add: pollIntervalMs_def)

lemma poll_completed_error:
  "a < maxPollAttempts \<Longrightarrow> getWorkflowRun w rid a = Inl e \<Longrightarrow>
   poll_completed w inp rid a = ([Call (get_run_request inp rid)], Inl (RequestError e))"
  by (subst poll_completed.simps) simp

lemma poll_none_from:
  "maxPollAttempts - a = n \<Longrightarrow>
   \<forall>j. a \<le> j \<and> j < maxPollAttempts \<longrightarrow>
     (\<exists>run. getWorkflowRun w rid j = Inr run \<and> status run \<noteq> Some ''completed'') \<Longrightarrow>
   timeline (fst (poll_completed w inp rid a)) = concat (replicate n (poll_round inp rid)) \<and>
   snd (poll_completed w inp rid a) = Inr None"
proof (induction n arbitrary: a)
  case 0
  then show ?case by (simp add: poll_completed_exhausted)
next
  case (Suc n)
  from Suc.prems(1) have lt: "a < maxPollAttempts" by simp
  with Suc.prems(2) obtain run where
    r: "getWorkflowRun w rid a = Inr run" "status run \<noteq> Some ''completed''" by blast
  from Suc.prems(1) have "maxPollAttempts - Suc a = n" by simp
  moreover from Suc.prems(2) have "\<forall>j. Suc a \<le> j \<and> j < maxPollAttempts \<longrightarrow>
     (\<exists>run. getWorkflowRun w rid j = Inr run \<and> status run \<noteq> Some ''completed'')" by simp
  ultimately have "timeline (fst (poll_completed w inp rid (Suc a))) =
      concat (replicate n (poll_round inp rid)) \<and>
      snd (poll_completed w inp rid (Suc a)) = Inr None" by (rule Suc.IH)
  with lt r show ?case by (simp add: poll_completed_wait poll_round_def)
qed

lemma poll_some_from:
  "k - a = n \<Longrightarrow> a \<le> k \<Longrightarrow> k < maxPollAttempts \<Longrightarrow>
   \<forall>j. a \<le> j \<and> j < k \<longrightarrow>
     (\<exists>run. getWorkflowRun w rid j = Inr run \<and> status run \<noteq> Some ''completed'') \<Longrightarrow>
   getWorkflowRun w rid k = Inr final \<Longrightarrow> status final = Some ''completed'' \<Longrightarrow>
   (\<exists>evs. fst (poll_completed w inp rid a) = evs @ [Call (get_run_request inp rid)] \<and>
      timeline evs = concat (replicate n (poll_round inp rid))) \<and>
   snd (poll_completed w inp rid a) = Inr (Some final)"
proof (induction n arbitrary: a)
  case 0
  then have "a = k" by simp
  with 0 show ?case by (simp add: poll_completed_done)
next
  case (Suc n)
  from Suc.prems have lt: "a < k" "a < maxPollAttempts" by simp_all
  with Suc.prems(4) obtain run where
    r: "getWorkflowRun w rid a = Inr run" "status run \<noteq> Some ''completed''" by blast
  have "(\<exists>evs. fst (poll_completed w inp rid (Suc a)) = evs @ [Call (get_run_request inp rid)] \<and>
      timeline evs = concat (replicate n (poll_round inp rid))) \<and>
   snd (poll_completed w inp rid (Suc a)) = Inr (Some final)"
  proof (rule Suc.IH)
    show "k - Suc a = n" using Suc.prems(1) by simp
    show "Suc a \<le> k" using lt by simp
    show "k < maxPollAttempts" by (rule Suc.prems(3))
    show "\<forall>j. Suc a \<le> j \<and> j < k \<longrightarrow>
     (\<exists>run. getWorkflowRun w rid j = Inr run \<and> status run \<noteq> Some ''completed'')"
      using Suc.prems(4) by simp
    show "getWorkflowRun w rid k = Inr final" by (rule Suc.prems(5))
    show "status final = Some ''completed''" by (rule Suc.prems(6))
  qed
  then obtain evs where
    e: "fst (poll_completed w inp rid (Suc a)) = evs @ [Call (get_run_request inp rid)]"
       "timeline evs = concat (replicate n (poll_round inp rid))"
    and s: "snd (poll_completed w inp rid (Suc a)) = Inr (Some final)" by blast
  let ?pre = "[Call (get_run_request inp rid), Log Info (AttemptStatus (a + 1) (status run) 5),
       Sleep 5000] @ evs"
  from lt r e have "fst (poll_completed w inp rid a) = ?pre @ [Call (get_run_request inp rid)]"
    by (simp add: poll_completed_wait)
  moreover from e have "timeline ?pre = concat (replicate (Suc n) (poll_round inp rid))"
    by (simp add: poll_round_def)
  moreover from lt r s have "snd (poll_completed w inp rid a) = Inr (Some final)"
    by (simp add: poll_completed_wait)
  ultimately show ?case by blast
qed

text \<open>Polling neither sets an output nor logs a warning.\<close>

lemma poll_quiet_from:
  "maxPollAttempts - a = n \<Longrightarrow>
   outputs_of (fst (poll_completed w inp rid a)) = [] \<and>
   warnings (fst (poll_completed w inp rid a)) = []"
proof (induction n arbitrary: a)
  case 0
  then show ?case by (simp add: poll_completed_exhausted)
next
  case (Suc n)
  then have lt: "a < maxPollAttempts" and ih:
    "outputs_of (fst (poll_completed w inp rid (Suc a))) = [] \<and>
     warnings (fst (poll_completed w inp rid (Suc a))) = []" by simp_all
  show ?case
  proof (cases "getWorkflowRun w rid a")
    case (Inl e)
    with lt show ?thesis by (simp add: poll_completed_error)
  next
    case (Inr run)
    with lt ih show ?thesis
      by (cases "status run = Some ''completed''")
        (simp_all add: poll_completed_done poll_completed_wait)
  qed
qed


lemma outputs_of_empty: "\<forall>v. Output v \<notin> set es \<Longrightarrow> outputs_of es = []"
  by (induction es rule: outputs_of.induct) auto

lemma warnings_empty: "\<forall>m. Log Warn m \<notin> set es \<Longrightarrow> warnings es = []"
  by (induction es rule: warnings.induct) auto

lemma calls_subset: "\<forall>r. Call r \<in> set es \<longrightarrow> r \<in> R \<Longrightarrow> set (calls es) \<subseteq> R"
  by (induction es rule: calls.induct) auto

lemma fst_emit [simp]: "fst (emit evs) = evs" and snd_emit [simp]: "snd (emit evs) = Inr ()"
  by (simp_all add: emit_def)

lemma fst_throw [simp]: "fst (throw e) = []" and snd_throw [simp]: "snd (throw e) = Inl e"
  by (simp_all add: throw_def)

lemma fst_return [simp]: "fst (return x) = []" and snd_return [simp]: "snd (return x) = Inr x"
  by (simp_all add: return_def)

lemma and_then_Inr: "snd m = Inr x \<Longrightarrow> and_then m f = (fst m @ fst (f x), snd (f x))"
  by (simp add: and_then_def)

lemma and_then_Inl: "snd m = Inl e \<Longrightarrow> and_then m f = (fst m, Inl e)"
  by (simp add: and_then_def)

lemma find_quiet:
  "outputs_of (fst (find_workflow_run w inp i)) = [] \<and>
   warnings (fst (find_workflow_run w inp i)) = []"
proof -
  have sub: "set (fst (find_workflow_run w inp i)) \<subseteq> set (discovery_round inp)"
    by (rule find_events_from [OF refl])
  have "\<forall>v. Output v \<notin> set (fst (find_workflow_run w inp i))"
    using sub by (auto simp: discovery_round_def)
  moreover have "\<forall>m. Log Warn m \<notin> set (fst (find_workflow_run w inp i))"
    using sub by (auto simp: discovery_round_def)
  ultimately show ?thesis by (simp add: outputs_of_empty warnings_empty)
qed

lemma find_calls:
  "set (calls (fst (find_workflow_run w inp i))) \<subseteq> {list_runs_request inp}"
proof -
  have sub: "set (fst (find_workflow_run w inp i)) \<subseteq> set (discovery_round inp)"
    by (rule find_events_from [OF refl])
  then have "\<forall>r. Call r \<in> set (fst (find_workflow_run w inp i)) \<longrightarrow>
          r \<in> {list_runs_request inp}"
    by (auto simp: discovery_round_def)
  then show ?thesis by (rule calls_subset)
qed

lemma handler_no_credential:
  "resolved_token ev inp = None \<or> resolved_token ev inp = Some [] \<Longrightarrow>
   handler w ev inp = ([], Inl MissingCredentialError)"
  by (auto simp: handler_def throw_def)

lemma handler_dispatch_error:
  "resolved_token ev inp = Some tok \<Longrightarrow> tok \<noteq> [] \<Longrightarrow>
   createWorkflowDispatch w = Inl e \<Longrightarrow>
   handler w ev inp = (dispatch_prefix tok inp, Inl (RequestError e))"
  by (simp add: handler_def dispatch_prefix_def)

lemma handler_no_wait:
  "resolved_token ev inp = Some tok \<Longrightarrow> tok \<noteq> [] \<Longrightarrow>
   createWorkflowDispatch w = Inr () \<Longrightarrow>
   waitForCompletion inp = None \<or> waitForCompletion inp = Some False \<Longrightarrow>
   handler w ev inp =
     (dispatch_prefix tok inp @ [Log Info (Dispatched (workflowId inp)), Log Info NotWaiting],
      Inr ())"
  by (auto simp: handler_def dispatch_prefix_def)

lemma handler_discovery_error:
  "resolved_token ev inp = Some tok \<Longrightarrow> tok \<noteq> [] \<Longrightarrow>
   createWorkflowDispatch w = Inr () \<Longrightarrow> waitForCompletion inp = Some True \<Longrightarrow>
   snd (find_workflow_run w inp 0) = Inl e \<Longrightarrow>
   handler w ev inp = (waiting_prefix tok inp @ fst (find_workflow_run w inp 0), Inl e)"
  by (simp add: handler_def dispatch_prefix_def waiting_prefix_def and_then_Inl and_then_Inr)

lemma handler_not_found:
  "resolved_token ev inp = Some tok \<Longrightarrow> tok \<noteq> [] \<Longrightarrow>
   createWorkflowDispatch w = Inr () \<Longrightarrow> waitForCompletion inp = Some True \<Longrightarrow>
   snd (find_workflow_run w inp 0) = Inr None \<Longrightarrow>
   handler w ev inp =
     (waiting_prefix tok inp @ fst (find_workflow_run w inp 0), Inl RunNotFoundError)"
  by (simp add: handler_def dispatch_prefix_def waiting_prefix_def and_then_Inr throw_def)

lemma handler_found:
  "resolved_token ev inp = Some tok \<Longrightarrow> tok \<noteq> [] \<Longrightarrow>
   createWorkflowDispatch w = Inr () \<Longrightarrow> waitForCompletion inp = Some True \<Longrightarrow>
   snd (find_workflow_run w inp 0) = Inr (Some sel) \<Longrightarrow>
   handler w ev inp =
     (waiting_prefix tok inp @ fst (find_workflow_run w inp 0) @ fst (await_run w inp sel),
      snd (await_run w inp sel))"
  by (simp add: handler_def dispatch_prefix_def waiting_prefix_def and_then_Inl and_then_Inr)

lemma await_run_poll_error:
  "snd (poll_completed w inp (run_id sel) 0) = Inl e \<Longrightarrow>
   await_run w inp sel =
     (found_prefix (run_id sel) @ fst (poll_completed w inp (run_id sel) 0), Inl e)"
  by (simp add: await_run_def Let_def found_prefix_def and_then_Inl and_then_Inr)

lemma await_run_timeout:
  "snd (poll_completed w inp (run_id sel) 0) = Inr None \<Longrightarrow>
   await_run w inp sel =
     (found_prefix (run_id sel) @ fst (poll_completed w inp (run_id sel) 0),
      Inl DispatchTimeoutError)"
  by (simp add: await_run_def Let_def found_prefix_def and_then_Inr throw_def)

lemma await_run_completed:
  "snd (poll_completed w inp (run_id sel) 0) = Inr (Some runData) \<Longrightarrow>
   await_run w inp sel =
     (found_prefix (run_id sel) @ fst (poll_completed w inp (run_id sel) 0) @
        [Log Info (RunCompleted (conclusion runData)), Output (Conclusion (conclusion runData))] @
        fst (fetch_artifact w inp (run_id sel)),
      snd (fetch_artifact w inp (run_id sel)))"
  by (simp add: await_run_def Let_def found_prefix_def and_then_Inl and_then_Inr)

subsection \<open>The credential\<close>

lemma resolved_token_cases:
  "resolved_token ev inp =
     (case token inp of Some t \<Rightarrow> Some t
      | None \<Rightarrow> (case GITHUB_TOKEN ev of Some g \<Rightarrow> Some g | None \<Rightarrow> GH_TOKEN ev))"
  by (simp add: resolved_token_def nullish_def split: option.splits)

section \<open>The claims\<close>

subsection \<open>Credential\<close>

text \<open>
  Claim C2. A request with no explicit token, in an environment where neither
  \<open>GITHUB_TOKEN\<close> nor \<open>GH_TOKEN\<close> holds a non-empty value (each is unset or empty), ends
  with \<open>MissingCredentialError\<close>, and the handler has done nothing at all before: no
  client was created and no request of any kind was sent, whatever the remote side is.
\<close>

theorem missing_credential_fails_fast:
  assumes "token inp = None"
    and "GITHUB_TOKEN ev = None \<or> GITHUB_TOKEN ev = Some []"
    and "GH_TOKEN ev = None \<or> GH_TOKEN ev = Some []"
  shows "handler w ev inp = ([], Inl MissingCredentialError)"
proof -
  from assms have "resolved_token ev inp = None \<or> resolved_token ev inp = Some []"
    by (auto simp: resolved_token_cases)
  then show ?thesis by (rule handler_no_credential)
qed

theorem missing_credential_fails_fast_witness:
  "handler world_ex env_none (inp_ex\<lparr>token := None\<rparr>) = ([], Inl MissingCredentialError)"
  using missing_credential_fails_fast
      [where inp = "inp_ex\<lparr>token := None\<rparr>" and ev = env_none and w = world_ex]
  by (simp add: env_none_def)

text \<open>
  Claim C3, as stated, fails. The two variables are chained with \<open>??\<close>, which passes over
  an unset variable only. With \<open>GITHUB_TOKEN\<close> set to the empty string and \<open>GH_TOKEN\<close>
  set to \<open>abc\<close>, the first non-empty of the two is \<open>abc\<close>, but the handler takes the empty
  string and throws the missing-credential error.
\<close>

theorem credential_first_non_empty_counterexample:
  "spec_credential \<lparr>GITHUB_TOKEN = Some [], GH_TOKEN = Some ''abc''\<rparr> (inp_ex\<lparr>token := None\<rparr>)
     = Some ''abc'' \<and>
   resolved_token \<lparr>GITHUB_TOKEN = Some [], GH_TOKEN = Some ''abc''\<rparr> (inp_ex\<lparr>token := None\<rparr>)
     = Some [] \<and>
   handler world_ex \<lparr>GITHUB_TOKEN = Some [], GH_TOKEN = Some ''abc''\<rparr> (inp_ex\<lparr>token := None\<rparr>)
     = ([], Inl MissingCredentialError)"
  by (simp add: spec_credential_def first_non_empty_def resolved_token_cases handler_def throw_def)

text \<open>
  Claim C3, amended. The credential is the explicit token when one is given, otherwise
  \<open>GITHUB_TOKEN\<close> when that variable is set (empty or not), otherwise \<open>GH_TOKEN\<close>. When
  the value chosen this way is absent or empty the handler throws the missing-credential
  error having done nothing; otherwise the first thing it does is to create the client
  with exactly that value.
\<close>

theorem credential_first_defined:
  "(case token inp of
      Some t \<Rightarrow> resolved_token ev inp = Some t
    | None \<Rightarrow>
        (case GITHUB_TOKEN ev of
           Some g \<Rightarrow> resolved_token ev inp = Some g
         | None \<Rightarrow> resolved_token ev inp = GH_TOKEN ev)) \<and>
   (case resolved_token ev inp of
      None \<Rightarrow> handler w ev inp = ([], Inl MissingCredentialError)
    | Some tok \<Rightarrow>
        if tok = [] then handler w ev inp = ([], Inl MissingCredentialError)
        else \<exists>rest. fst (handler w ev inp) = NewClient tok # rest)"
  apply (rule conjI)
   apply (simp add: resolved_token_cases split: option.splits)
  apply (simp add: handler_def throw_def split: option.splits)
  done

theorem credential_first_defined_witness:
  "resolved_token \<lparr>GITHUB_TOKEN = None, GH_TOKEN = Some ''abc''\<rparr> (inp_ex\<lparr>token := None\<rparr>)
     = Some ''abc'' \<and>
   (\<exists>rest. fst (handler world_ex \<lparr>GITHUB_TOKEN = None, GH_TOKEN = Some ''abc''\<rparr>
                  (inp_ex\<lparr>token := None\<rparr>)) = NewClient ''abc'' # rest)"
  using credential_first_defined [where inp = "inp_ex\<lparr>token := None\<rparr>"
      and ev = "\<lparr>GITHUB_TOKEN = None, GH_TOKEN = Some ''abc''\<rparr>" and w = world_ex]
  by (simp add: resolved_token_cases)

subsection \<open>Not waiting\<close>

text \<open>
  Claim C8. With a credential and \<open>waitForCompletion\<close> false or left out, the only
  request the handler sends is the one dispatch request (so no run listing, no run
  polling, no artifact listing and no download), it sets no output (neither
  \<open>conclusion\<close> nor \<open>outputs\<close>), and it returns normally when the dispatch request
  succeeded; an error of the dispatch request itself is thrown on.
\<close>

theorem no_wait_only_dispatches:
  assumes "resolved_token ev inp = Some tok" and "tok \<noteq> []"
    and "waitForCompletion inp = None \<or> waitForCompletion inp = Some False"
  shows "calls (fst (handler w ev inp)) =
           [CreateWorkflowDispatch (owner inp) (repo inp) (workflowId inp) (branchOrTagName inp)
              (workflowInputs inp)] \<and>
         outputs_of (fst (handler w ev inp)) = [] \<and>
         (case createWorkflowDispatch w of
            Inr u \<Rightarrow> snd (handler w ev inp) = Inr ()
          | Inl e \<Rightarrow> snd (handler w ev inp) = Inl (RequestError e))"
proof (cases "createWorkflowDispatch w")
  case (Inl e)
  with assms show ?thesis
    by (simp add: handler_dispatch_error dispatch_prefix_def dispatch_request_def)
next
  case (Inr u)
  with assms show ?thesis
    by (simp add: handler_no_wait dispatch_prefix_def dispatch_request_def)
qed

theorem no_wait_only_dispatches_witness:
  "calls (fst (handler world_ex env_none (inp_ex\<lparr>waitForCompletion := None\<rparr>))) =
     [CreateWorkflowDispatch ''acme'' ''app'' (WorkflowFile ''ci.yml'') ''main'' None] \<and>
   outputs_of (fst (handler world_ex env_none (inp_ex\<lparr>waitForCompletion := None\<rparr>))) = [] \<and>
   snd (handler world_ex env_none (inp_ex\<lparr>waitForCompletion := None\<rparr>)) = Inr ()"
  using no_wait_only_dispatches [where ev = env_none
      and inp = "inp_ex\<lparr>waitForCompletion := None\<rparr>" and tok = "''t0k''" and w = world_ex]
  by (simp add: resolved_token_cases inp_ex_def env_none_def world_ex_def)

subsection \<open>Run discovery\<close>

lemma no_match_select:
  "\<forall>i<n. \<exists>runs. listWorkflowRuns w i = Inr runs \<and>
      (\<forall>run\<in>set runs. head_branch run \<noteq> Some (branchOrTagName inp)) \<Longrightarrow>
   \<forall>j. 0 \<le> j \<and> j < n \<longrightarrow>
     (\<exists>runs. listWorkflowRuns w j = Inr runs \<and> select_run w inp runs = None)"
  by (simp add: select_run_None_iff)

lemma find_no_match:
  assumes "\<forall>i<12. \<exists>runs. listWorkflowRuns w i = Inr runs \<and>
      (\<forall>run\<in>set runs. head_branch run \<noteq> Some (branchOrTagName inp))"
  shows "find_workflow_run w inp 0 = (concat (replicate 12 (discovery_round inp)), Inr None)"
proof -
  have "maxRunPollAttempts - 0 = 12" by (simp add: maxRunPollAttempts_def)
  moreover from assms have "\<forall>j. 0 \<le> j \<and> j < maxRunPollAttempts \<longrightarrow>
     (\<exists>runs. listWorkflowRuns w j = Inr runs \<and> select_run w inp runs = None)"
    unfolding maxRunPollAttempts_def by (rule no_match_select)
  ultimately show ?thesis by (rule find_none_from)
qed

lemma timeline_rounds:
  "timeline (concat (replicate n (discovery_round inp))) =
     concat (replicate n [Call (list_runs_request inp), Sleep 5000])"
  by (induction n) (simp_all add: discovery_round_def)

lemma calls_rounds:
  "calls (concat (replicate n (discovery_round inp))) = replicate n (list_runs_request inp)"
  by (induction n) (simp_all add: discovery_round_def)

text \<open>
  Claim C4. With a credential, a successful dispatch request and \<open>waitForCompletion\<close>
  true: when each of the 12 run listings returns a page with no run whose \<open>head_branch\<close>
  is the requested ref, the handler ends with \<open>RunNotFoundError\<close>. Up to then it has sent
  the dispatch request and exactly 12 run-listing requests, each followed by a delay of
  5000 ms (so there is one between any two attempts, and one more after the last), and
  nothing else: the error ends the handler, no further request is sent.
\<close>

theorem discovery_budget_exhausted:
  assumes "resolved_token ev inp = Some tok" and "tok \<noteq> []"
    and "createWorkflowDispatch w = Inr ()" and "waitForCompletion inp = Some True"
    and "\<forall>i<12. \<exists>runs. listWorkflowRuns w i = Inr runs \<and>
           (\<forall>run\<in>set runs. head_branch run \<noteq> Some (branchOrTagName inp))"
  shows "snd (handler w ev inp) = Inl RunNotFoundError \<and>
         timeline (fst (handler w ev inp)) =
           Call (CreateWorkflowDispatch (owner inp) (repo inp) (workflowId inp)
                   (branchOrTagName inp) (workflowInputs inp)) #
           concat (replicate 12
             [Call (ListWorkflowRuns (owner inp) (repo inp) (workflowId inp)
                      ''workflow_dispatch'' (branchOrTagName inp) 5),
              Sleep 5000])"
proof -
  from assms(5) have f: "find_workflow_run w inp 0 =
      (concat (replicate 12 (discovery_round inp)), Inr None)" by (rule find_no_match)
  then have "snd (find_workflow_run w inp 0) = Inr None" by simp
  with assms have "handler w ev inp =
     (waiting_prefix tok inp @ fst (find_workflow_run w inp 0), Inl RunNotFoundError)"
    by (simp add: handler_not_found)
  with f show ?thesis
    by (simp add: waiting_prefix_def dispatch_prefix_def timeline_rounds
        dispatch_request_def list_runs_request_def)
qed

theorem discovery_budget_exhausted_witness:
  "snd (handler (world_ex\<lparr>listWorkflowRuns := \<lambda>i. Inr []\<rparr>) env_none inp_ex)
     = Inl RunNotFoundError \<and>
   timeline (fst (handler (world_ex\<lparr>listWorkflowRuns := \<lambda>i. Inr []\<rparr>) env_none inp_ex)) =
     Call (CreateWorkflowDispatch ''acme'' ''app'' (WorkflowFile ''ci.yml'') ''main'' None) #
     concat (replicate 12
       [Call (ListWorkflowRuns ''acme'' ''app'' (WorkflowFile ''ci.yml'') ''workflow_dispatch''
                ''main'' 5),
        Sleep 5000])"
  using discovery_budget_exhausted [where ev = env_none and inp = inp_ex and tok = "''t0k''"
      and w = "world_ex\<lparr>listWorkflowRuns := \<lambda>i. Inr []\<rparr>"]
  by (simp add: resolved_token_cases inp_ex_def env_none_def world_ex_def)

lemmas ex_defs = inp_ex_def env_none_def run_ex_def run_done_def artifact_ex_def world_ex_def

lemmas run_defs =
  handler_def await_run_def fetch_artifact_def extract_output_def try_extract_def
  find_workflow_run.simps poll_completed.simps select_run_def endsWith_def
  resolved_token_cases maxRunPollAttempts_def maxPollAttempts_def pollIntervalMs_def
  and_then_def emit_def return_def call_def throw_def

lemma handler_world_ex:
  "handler world_ex env_none inp_ex =
     ([NewClient ''t0k'',
       Log Info (Dispatching (WorkflowFile ''ci.yml'') ''acme'' ''app'' ''main''),
       Call (CreateWorkflowDispatch ''acme'' ''app'' (WorkflowFile ''ci.yml'') ''main'' None),
       Log Info (Dispatched (WorkflowFile ''ci.yml'')),
       Log Info WaitingForRun,
       Call (ListWorkflowRuns ''acme'' ''app'' (WorkflowFile ''ci.yml'') ''workflow_dispatch''
               ''main'' 5),
       Log Info (FoundRun 42),
       Log Info PollingRun,
       Call (GetWorkflowRun ''acme'' ''app'' 42),
       Log Info (RunCompleted (Some ''success'')),
       Output (Conclusion (Some ''success'')),
       Log Info (FetchingArtifact ''result'' 42),
       Call (ListWorkflowRunArtifacts ''acme'' ''app'' 42),
       Call (DownloadArtifact ''acme'' ''app'' 7 ''zip''),
       Log Info JsonParsed,
       Output (Outputs (JArray [JNumber 1]))],
      Inr ())"
  by (simp add: run_defs ex_defs dispatch_request_def list_runs_request_def get_run_request_def
      list_artifacts_request_def download_request_def)

lemma find_selected:
  assumes "snd (find_workflow_run w inp 0) = Inr (Some sel)"
  shows "\<exists>i<12. \<exists>runs. listWorkflowRuns w i = Inr runs \<and> sel \<in> set runs \<and>
           head_branch sel = Some (branchOrTagName inp)"
proof -
  from assms obtain j runs where j: "j < maxRunPollAttempts"
    "listWorkflowRuns w j = Inr runs" "select_run w inp runs = Some sel"
    using find_selected_from [OF refl] by blast
  from j(3) have "sel \<in> set runs" "head_branch sel = Some (branchOrTagName inp)"
    by (rule select_run_Some)+
  with j(1,2) show ?thesis unfolding maxRunPollAttempts_def by blast
qed

text \<open>
  Claim C5. Let attempt \<open>k\<close> (counted from 0, so \<open>k < 12\<close>) be the first whose page holds
  a run with \<open>head_branch\<close> equal to the requested ref, the pages before having held none.
  Then the loop ends at that attempt, after exactly \<open>k + 1\<close> listing requests (filtered by
  workflow, event \<open>workflow_dispatch\<close> and branch) and with no delay after the last; the
  run it selects is in that page, has the requested head ref, and no run of the page with
  that head ref has a later creation time. The handler carries on with that run.
\<close>

theorem newest_matching_run_selected:
  assumes "resolved_token ev inp = Some tok" and "tok \<noteq> []"
    and "createWorkflowDispatch w = Inr ()" and "waitForCompletion inp = Some True"
    and "k < 12"
    and "\<forall>i<k. \<exists>runs. listWorkflowRuns w i = Inr runs \<and>
           (\<forall>run\<in>set runs. head_branch run \<noteq> Some (branchOrTagName inp))"
    and "listWorkflowRuns w k = Inr page"
    and "\<exists>run\<in>set page. head_branch run = Some (branchOrTagName inp)"
  shows "\<exists>sel.
           find_workflow_run w inp 0 =
             (concat (replicate k
                [Call (ListWorkflowRuns (owner inp) (repo inp) (workflowId inp)
                         ''workflow_dispatch'' (branchOrTagName inp) 5),
                 Log Info RunNotFoundYet, Sleep 5000]) @
              [Call (ListWorkflowRuns (owner inp) (repo inp) (workflowId inp)
                       ''workflow_dispatch'' (branchOrTagName inp) 5)],
              Inr (Some sel)) \<and>
           sel \<in> set page \<and> head_branch sel = Some (branchOrTagName inp) \<and>
           (\<forall>run\<in>set page. head_branch run = Some (branchOrTagName inp) \<longrightarrow>
              Date_value w (created_at run) \<le> Date_value w (created_at sel)) \<and>
           snd (handler w ev inp) = snd (await_run w inp sel) \<and>
           (\<exists>before. fst (handler w ev inp) = before @ fst (await_run w inp sel) \<and>
              length (filter (\<lambda>e. e = Call (list_runs_request inp)) before) = Suc k)"
proof -
  from assms(8) have "select_run w inp page \<noteq> None" by (simp add: select_run_None_iff)
  then obtain sel where sel: "select_run w inp page = Some sel" by blast
  have "k - 0 = k" "0 \<le> k" by simp_all
  moreover from assms(5) have "k < maxRunPollAttempts" by (simp add: maxRunPollAttempts_def)
  moreover from assms(6) have "\<forall>j. 0 \<le> j \<and> j < k \<longrightarrow>
     (\<exists>runs. listWorkflowRuns w j = Inr runs \<and> select_run w inp runs = None)"
    by (rule no_match_select)
  ultimately have f: "find_workflow_run w inp 0 =
     (concat (replicate k (discovery_round inp)) @ [Call (list_runs_request inp)],
      Inr (Some sel))"
    using assms(7) sel by (rule find_some_from)
  then have "snd (find_workflow_run w inp 0) = Inr (Some sel)" by simp
  with assms(1-4) have h: "handler w ev inp =
     (waiting_prefix tok inp @ fst (find_workflow_run w inp 0) @ fst (await_run w inp sel),
      snd (await_run w inp sel))" by (rule handler_found)
  let ?before = "waiting_prefix tok inp @ fst (find_workflow_run w inp 0)"
  have cnt: "length (filter (\<lambda>e. e = Call (list_runs_request inp))
               (concat (replicate k (discovery_round inp)))) = k"
    by (induction k) (simp_all add: discovery_round_def)
  have "length (filter (\<lambda>e. e = Call (list_runs_request inp)) ?before) = Suc k"
    using f cnt
    by (simp add: waiting_prefix_def dispatch_prefix_def dispatch_request_def
        list_runs_request_def)
  moreover from h have "fst (handler w ev inp) = ?before @ fst (await_run w inp sel)" by simp
  moreover from h have "snd (handler w ev inp) = snd (await_run w inp sel)" by simp
  moreover note select_run_Some [OF sel]
  moreover from f have "find_workflow_run w inp 0 =
             (concat (replicate k
                [Call (ListWorkflowRuns (owner inp) (repo inp) (workflowId inp)
                         ''workflow_dispatch'' (branchOrTagName inp) 5),
                 Log Info RunNotFoundYet, Sleep 5000]) @
              [Call (ListWorkflowRuns (owner inp) (repo inp) (workflowId inp)
                       ''workflow_dispatch'' (branchOrTagName inp) 5)],
              Inr (Some sel))"
    by (simp add: discovery_round_def list_runs_request_def)
  ultimately show ?thesis by blast
qed

theorem newest_matching_run_selected_witness:
  "find_workflow_run
     (world_ex\<lparr>listWorkflowRuns := \<lambda>i. if i = 0 then Inr [] else
        Inr [run_ex\<lparr>run_id := 41, created_at := ''2024-01-01T00:00:00Z''\<rparr>, run_ex,
             run_ex\<lparr>run_id := 43, head_branch := Some ''dev''\<rparr>]\<rparr>) inp_ex 0 =
     ([Call (ListWorkflowRuns ''acme'' ''app'' (WorkflowFile ''ci.yml'') ''workflow_dispatch''
               ''main'' 5),
       Log Info RunNotFoundYet, Sleep 5000,
       Call (ListWorkflowRuns ''acme'' ''app'' (WorkflowFile ''ci.yml'') ''workflow_dispatch''
               ''main'' 5)],
      Inr (Some run_ex))"
proof -
  let ?older = "run_ex\<lparr>run_id := 41, created_at := ''2024-01-01T00:00:00Z''\<rparr>"
  let ?other = "run_ex\<lparr>run_id := 43, head_branch := Some ''dev''\<rparr>"
  let ?page = "[?older, run_ex, ?other]"
  let ?w = "world_ex\<lparr>listWorkflowRuns := \<lambda>i. if i = 0 then Inr [] else Inr ?page\<rparr>"
  have h1: "resolved_token env_none inp_ex = Some ''t0k''"
    by (simp add: resolved_token_cases ex_defs)
  have h2: "''t0k'' \<noteq> []" by simp
  have h3: "createWorkflowDispatch ?w = Inr ()" by (simp add: world_ex_def)
  have h4: "waitForCompletion inp_ex = Some True" by (simp add: inp_ex_def)
  have h5: "(1::nat) < 12" by simp
  have h6: "\<forall>i<1. \<exists>runs. listWorkflowRuns ?w i = Inr runs \<and>
           (\<forall>run\<in>set runs. head_branch run \<noteq> Some (branchOrTagName inp_ex))"
    by (simp add: world_ex_def)
  have h7: "listWorkflowRuns ?w 1 = Inr ?page" by (simp add: world_ex_def)
  have h8: "\<exists>run\<in>set ?page. head_branch run = Some (branchOrTagName inp_ex)"
    by (simp add: run_ex_def inp_ex_def)
  from newest_matching_run_selected [OF h1 h2 h3 h4 h5 h6 h7 h8]
  obtain sel where
    f: "find_workflow_run ?w inp_ex 0 =
             (concat (replicate 1
                [Call (ListWorkflowRuns (owner inp_ex) (repo inp_ex) (workflowId inp_ex)
                         ''workflow_dispatch'' (branchOrTagName inp_ex) 5),
                 Log Info RunNotFoundYet, Sleep 5000]) @
              [Call (ListWorkflowRuns (owner inp_ex) (repo inp_ex) (workflowId inp_ex)
                       ''workflow_dispatch'' (branchOrTagName inp_ex) 5)],
              Inr (Some sel))"
    and m: "sel \<in> set ?page" and b: "head_branch sel = Some (branchOrTagName inp_ex)"
    and n: "\<forall>run\<in>set ?page. head_branch run = Some (branchOrTagName inp_ex) \<longrightarrow>
              Date_value ?w (created_at run) \<le> Date_value ?w (created_at sel)"
    by blast
  from m have "sel = ?older \<or> sel = run_ex \<or> sel = ?other" by simp
  then have "sel = run_ex"
  proof (elim disjE)
    assume "sel = ?older"
    with n show ?thesis by (simp add: run_ex_def inp_ex_def world_ex_def)
  next
    assume "sel = run_ex"
    then show ?thesis .
  next
    assume "sel = ?other"
    with b show ?thesis by (simp add: run_ex_def inp_ex_def)
  qed
  with f show ?thesis by (simp add: inp_ex_def)
qed

subsection \<open>Completion polling\<close>

lemma calls_timeline: "calls (timeline es) = calls es"
  by (induction es rule: calls.induct) simp_all

lemma calls_poll_rounds:
  "calls (concat (replicate n (poll_round inp rid))) = replicate n (get_run_request inp rid)"
  by (induction n) (simp_all add: poll_round_def)

lemma poll_never_completed:
  assumes "\<forall>a<60. \<exists>run. getWorkflowRun w rid a = Inr run \<and> status run \<noteq> Some ''completed''"
  shows "timeline (fst (poll_completed w inp rid 0)) = concat (replicate 60 (poll_round inp rid))"
    and "snd (poll_completed w inp rid 0) = Inr None"
proof -
  have "maxPollAttempts - 0 = 60" by (simp add: maxPollAttempts_def)
  moreover from assms have "\<forall>j. 0 \<le> j \<and> j < maxPollAttempts \<longrightarrow>
     (\<exists>run. getWorkflowRun w rid j = Inr run \<and> status run \<noteq> Some ''completed'')"
    by (simp add: maxPollAttempts_def)
  ultimately have "timeline (fst (poll_completed w inp rid 0)) =
      concat (replicate 60 (poll_round inp rid)) \<and>
      snd (poll_completed w inp rid 0) = Inr None" by (rule poll_none_from)
  then show "timeline (fst (poll_completed w inp rid 0)) =
      concat (replicate 60 (poll_round inp rid))"
    and "snd (poll_completed w inp rid 0) = Inr None" by simp_all
qed

text \<open>
  Claim C7. With a credential, a successful dispatch request, \<open>waitForCompletion\<close> true
  and a run found by the discovery loop: when each of the 60 polls returns the run with
  a status other than \<open>completed\<close>, the handler ends with \<open>DispatchTimeoutError\<close>. After
  the dispatch request and the requests and delays of the discovery loop, it has sent
  exactly 60 get-run requests for the run found, each followed by a delay of 5000 ms,
  and nothing else.
\<close>

theorem completion_budget_exhausted:
  assumes "resolved_token ev inp = Some tok" and "tok \<noteq> []"
    and "createWorkflowDispatch w = Inr ()" and "waitForCompletion inp = Some True"
    and "snd (find_workflow_run w inp 0) = Inr (Some sel)"
    and "\<forall>a<60. \<exists>run. getWorkflowRun w (run_id sel) a = Inr run \<and>
           status run \<noteq> Some ''completed''"
  shows "snd (handler w ev inp) = Inl DispatchTimeoutError \<and>
         timeline (fst (handler w ev inp)) =
           Call (CreateWorkflowDispatch (owner inp) (repo inp) (workflowId inp)
                   (branchOrTagName inp) (workflowInputs inp)) #
           timeline (fst (find_workflow_run w inp 0)) @
           concat (replicate 60
             [Call (GetWorkflowRun (owner inp) (repo inp) (run_id sel)), Sleep 5000])"
proof -
  from assms(6) have
    p: "timeline (fst (poll_completed w inp (run_id sel) 0)) =
          concat (replicate 60 (poll_round inp (run_id sel)))"
    and n: "snd (poll_completed w inp (run_id sel) 0) = Inr None"
    by (rule poll_never_completed)+
  from n have a: "await_run w inp sel =
     (found_prefix (run_id sel) @ fst (poll_completed w inp (run_id sel) 0),
      Inl DispatchTimeoutError)" by (rule await_run_timeout)
  from assms(1-5) have h: "handler w ev inp =
     (waiting_prefix tok inp @ fst (find_workflow_run w inp 0) @ fst (await_run w inp sel),
      snd (await_run w inp sel))" by (rule handler_found)
  from h a show ?thesis
    by (simp add: p waiting_prefix_def dispatch_prefix_def found_prefix_def poll_round_def
        dispatch_request_def get_run_request_def)
qed

theorem completion_budget_exhausted_witness:
  "snd (handler (world_ex\<lparr>getWorkflowRun := \<lambda>rid a. Inr run_ex\<rparr>) env_none inp_ex)
     = Inl DispatchTimeoutError \<and>
   timeline (fst (handler (world_ex\<lparr>getWorkflowRun := \<lambda>rid a. Inr run_ex\<rparr>) env_none inp_ex)) =
     Call (CreateWorkflowDispatch ''acme'' ''app'' (WorkflowFile ''ci.yml'') ''main'' None) #
     Call (ListWorkflowRuns ''acme'' ''app'' (WorkflowFile ''ci.yml'') ''workflow_dispatch''
             ''main'' 5) #
     concat (replicate 60 [Call (GetWorkflowRun ''acme'' ''app'' 42), Sleep 5000])"
proof -
  let ?w = "world_ex\<lparr>getWorkflowRun := \<lambda>rid a. Inr run_ex\<rparr>"
  have f: "find_workflow_run ?w inp_ex 0 =
      ([Call (ListWorkflowRuns ''acme'' ''app'' (WorkflowFile ''ci.yml'') ''workflow_dispatch''
                ''main'' 5)], Inr (Some run_ex))"
    by (simp add: find_workflow_run.simps maxRunPollAttempts_def select_run_def ex_defs
        list_runs_request_def)
  have h1: "resolved_token env_none inp_ex = Some ''t0k''"
    by (simp add: resolved_token_cases ex_defs)
  have h2: "''t0k'' \<noteq> []" by simp
  have h3: "createWorkflowDispatch ?w = Inr ()" by (simp add: world_ex_def)
  have h4: "waitForCompletion inp_ex = Some True" by (simp add: inp_ex_def)
  from f have h5: "snd (find_workflow_run ?w inp_ex 0) = Inr (Some run_ex)" by simp
  have h6: "\<forall>a<60. \<exists>run. getWorkflowRun ?w (run_id run_ex) a = Inr run \<and>
           status run \<noteq> Some ''completed''"
    by (simp add: world_ex_def run_ex_def)
  from completion_budget_exhausted [OF h1 h2 h3 h4 h5 h6] f show ?thesis
    by (simp add: inp_ex_def run_ex_def del: replicate.simps)
qed

lemma try_extract_events:
  "try_extract w zipData = Inr evs \<Longrightarrow> calls evs = [] \<and> filter is_sleep evs = []"
  by (auto simp: try_extract_def split: sum.splits option.splits if_splits)

lemma extract_output_quiet:
  "calls (fst (extract_output w zipData)) = [] \<and>
   filter is_sleep (fst (extract_output w zipData)) = [] \<and>
   snd (extract_output w zipData) = Inr ()"
  by (cases "try_extract w zipData") (simp_all add: extract_output_def try_extract_events)

lemma fetch_artifact_no_polling:
  "filter is_get_run (calls (fst (fetch_artifact w inp rid))) = [] \<and>
   filter is_sleep (fst (fetch_artifact w inp rid)) = []"
proof (cases "outputArtifactName inp")
  case None
  then show ?thesis by (simp add: fetch_artifact_def)
next
  case (Some name)
  show ?thesis
  proof (cases "name = []")
    case True
    with Some show ?thesis by (simp add: fetch_artifact_def)
  next
    case False
    show ?thesis
    proof (cases "listWorkflowRunArtifacts w rid")
      case (Inl e)
      with Some False show ?thesis
        by (simp add: fetch_artifact_def list_artifacts_request_def)
    next
      case (Inr artifacts)
      show ?thesis
      proof (cases "find (\<lambda>a. artifact_name a = name) artifacts")
        case None
        with Some False Inr show ?thesis
          by (simp add: fetch_artifact_def list_artifacts_request_def)
      next
        case (Some art)
        with \<open>outputArtifactName inp = Some name\<close> False Inr show ?thesis
          by (cases "downloadArtifact w (artifact_id art)")
            (simp_all add: fetch_artifact_def list_artifacts_request_def download_request_def
              extract_output_quiet)
      qed
    qed
  qed
qed

lemma find_no_get_run: "filter is_get_run (calls (fst (find_workflow_run w inp i))) = []"
proof -
  have "set (calls (fst (find_workflow_run w inp i))) \<subseteq> {list_runs_request inp}"
    by (rule find_calls)
  then have "\<forall>r\<in>set (calls (fst (find_workflow_run w inp i))). \<not> is_get_run r"
    by (auto simp: list_runs_request_def)
  then show ?thesis by (simp add: filter_empty_conv)
qed

lemma poll_completed_at:
  assumes "0 < k" and "k \<le> 60"
    and "\<forall>a<k - 1. \<exists>run. getWorkflowRun w rid a = Inr run \<and> status run \<noteq> Some ''completed''"
    and "getWorkflowRun w rid (k - 1) = Inr final" and "status final = Some ''completed''"
  shows "\<exists>evs. fst (poll_completed w inp rid 0) = evs @ [Call (get_run_request inp rid)] \<and>
           calls evs = replicate (k - 1) (get_run_request inp rid)"
    and "snd (poll_completed w inp rid 0) = Inr (Some final)"
proof -
  have "k - 1 - 0 = k - 1" "0 \<le> k - 1" by simp_all
  moreover from assms(1,2) have "k - 1 < maxPollAttempts" by (simp add: maxPollAttempts_def)
  moreover from assms(3) have "\<forall>j. 0 \<le> j \<and> j < k - 1 \<longrightarrow>
     (\<exists>run. getWorkflowRun w rid j = Inr run \<and> status run \<noteq> Some ''completed'')" by simp
  ultimately have r: "(\<exists>evs. fst (poll_completed w inp rid 0) =
        evs @ [Call (get_run_request inp rid)] \<and>
      timeline evs = concat (replicate (k - 1) (poll_round inp rid))) \<and>
   snd (poll_completed w inp rid 0) = Inr (Some final)"
    using assms(4,5) by (rule poll_some_from)
  then show "snd (poll_completed w inp rid 0) = Inr (Some final)" by simp
  from r obtain evs where e: "fst (poll_completed w inp rid 0) =
        evs @ [Call (get_run_request inp rid)]"
      "timeline evs = concat (replicate (k - 1) (poll_round inp rid))" by blast
  from e(2) have "calls (timeline evs) = replicate (k - 1) (get_run_request inp rid)"
    by (simp add: calls_poll_rounds)
  then have "calls evs = replicate (k - 1) (get_run_request inp rid)"
    by (simp add: calls_timeline)
  with e(1) show "\<exists>evs. fst (poll_completed w inp rid 0) =
        evs @ [Call (get_run_request inp rid)] \<and>
      calls evs = replicate (k - 1) (get_run_request inp rid)" by blast
qed

text \<open>
  Claim C6. With a credential, a successful dispatch request, \<open>waitForCompletion\<close> true
  and a run found by the discovery loop: when the polls \<open>1\<close> to \<open>k - 1\<close> return a status
  other than \<open>completed\<close> and poll \<open>k\<close> (\<open>1 \<le> k \<le> 60\<close>) returns \<open>completed\<close>, the handler
  sends exactly \<open>k\<close> get-run requests in all, and after the \<open>k\<close>-th it sends no further
  get-run request and awaits no further delay.
\<close>

theorem polling_stops_at_completion:
  assumes "resolved_token ev inp = Some tok" and "tok \<noteq> []"
    and "createWorkflowDispatch w = Inr ()" and "waitForCompletion inp = Some True"
    and "snd (find_workflow_run w inp 0) = Inr (Some sel)"
    and "0 < k" and "k \<le> 60"
    and "\<forall>a<k - 1. \<exists>run. getWorkflowRun w (run_id sel) a = Inr run \<and>
           status run \<noteq> Some ''completed''"
    and "getWorkflowRun w (run_id sel) (k - 1) = Inr final"
    and "status final = Some ''completed''"
  shows "filter is_get_run (calls (fst (handler w ev inp))) =
           replicate k (GetWorkflowRun (owner inp) (repo inp) (run_id sel)) \<and>
         (\<exists>before after.
            fst (handler w ev inp) =
              before @ Call (GetWorkflowRun (owner inp) (repo inp) (run_id sel)) # after \<and>
            filter is_get_run (calls before) =
              replicate (k - 1) (GetWorkflowRun (owner inp) (repo inp) (run_id sel)) \<and>
            filter is_get_run (calls after) = [] \<and> filter is_sleep after = [])"
proof -
  let ?g = "GetWorkflowRun (owner inp) (repo inp) (run_id sel)"
  have g: "get_run_request inp (run_id sel) = ?g" by (simp add: get_run_request_def)
  from assms(6-10) obtain evs where
    e: "fst (poll_completed w inp (run_id sel) 0) = evs @ [Call ?g]"
       "calls evs = replicate (k - 1) ?g"
    and s: "snd (poll_completed w inp (run_id sel) 0) = Inr (Some final)"
    using poll_completed_at [of k w "run_id sel" final inp] unfolding g by blast
  from s have a: "await_run w inp sel =
     (found_prefix (run_id sel) @ fst (poll_completed w inp (run_id sel) 0) @
        [Log Info (RunCompleted (conclusion final)), Output (Conclusion (conclusion final))] @
        fst (fetch_artifact w inp (run_id sel)),
      snd (fetch_artifact w inp (run_id sel)))" by (rule await_run_completed)
  from assms(1-5) have h: "handler w ev inp =
     (waiting_prefix tok inp @ fst (find_workflow_run w inp 0) @ fst (await_run w inp sel),
      snd (await_run w inp sel))" by (rule handler_found)
  define before where "before = waiting_prefix tok inp @ fst (find_workflow_run w inp 0) @
                 found_prefix (run_id sel) @ evs"
  define after where "after = [Log Info (RunCompleted (conclusion final)),
                 Output (Conclusion (conclusion final))] @
                fst (fetch_artifact w inp (run_id sel))"
  from h a e(1) have split: "fst (handler w ev inp) = before @ Call ?g # after"
    by (simp add: before_def after_def)
  have b: "filter is_get_run (calls before) = replicate (k - 1) ?g"
    by (simp add: before_def e(2) find_no_get_run waiting_prefix_def dispatch_prefix_def
        found_prefix_def dispatch_request_def)
  have c: "filter is_get_run (calls after) = []" "filter is_sleep after = []"
    by (simp_all add: after_def fetch_artifact_no_polling)
  from assms(6) have k: "replicate (k - 1) ?g @ [?g] = replicate k ?g"
    by (cases k) (simp_all add: replicate_append_same)
  have "filter is_get_run (calls (before @ Call ?g # after)) =
          filter is_get_run (calls before) @ [?g] @ filter is_get_run (calls after)"
    by simp
  also have "\<dots> = replicate (k - 1) ?g @ [?g]" by (simp only: b c append_Nil2)
  also have "\<dots> = replicate k ?g" by (rule k)
  finally have "filter is_get_run (calls (fst (handler w ev inp))) = replicate k ?g"
    by (simp only: split)
  with split b c show ?thesis by blast
qed

theorem polling_stops_at_completion_witness:
  "filter is_get_run
     (calls (fst (handler
        (world_ex\<lparr>getWorkflowRun := \<lambda>rid a. if a < 2 then Inr run_ex else Inr run_done\<rparr>)
        env_none inp_ex))) =
   [GetWorkflowRun ''acme'' ''app'' 42, GetWorkflowRun ''acme'' ''app'' 42,
    GetWorkflowRun ''acme'' ''app'' 42]"
proof -
  let ?w = "world_ex\<lparr>getWorkflowRun := \<lambda>rid a. if a < 2 then Inr run_ex else Inr run_done\<rparr>"
  have h1: "resolved_token env_none inp_ex = Some ''t0k''"
    by (simp add: resolved_token_cases ex_defs)
  have h2: "''t0k'' \<noteq> []" by simp
  have h3: "createWorkflowDispatch ?w = Inr ()" by (simp add: world_ex_def)
  have h4: "waitForCompletion inp_ex = Some True" by (simp add: inp_ex_def)
  have h5: "snd (find_workflow_run ?w inp_ex 0) = Inr (Some run_ex)"
    by (simp add: find_workflow_run.simps maxRunPollAttempts_def select_run_def ex_defs)
  have h6: "(0::nat) < 3" and h7: "(3::nat) \<le> 60" by simp_all
  have h8: "\<forall>a<3 - 1. \<exists>run. getWorkflowRun ?w (run_id run_ex) a = Inr run \<and>
           status run \<noteq> Some ''completed''"
    by (simp add: world_ex_def run_ex_def)
  have h9: "getWorkflowRun ?w (run_id run_ex) (3 - 1) = Inr run_done"
    by (simp add: world_ex_def)
  have h10: "status run_done = Some ''completed''" by (simp add: run_done_def)
  from polling_stops_at_completion [OF h1 h2 h3 h4 h5 h6 h7 h8 h9 h10] show ?thesis
    by (simp add: inp_ex_def run_ex_def numeral_3_eq_3)
qed

subsection \<open>Artifact extraction\<close>

lemma scan_files_first_json:
  "\<forall>f\<in>set skipped. \<not> endsWith (path f) ''.json'' \<Longrightarrow> endsWith (path file) ''.json'' \<Longrightarrow>
   scan_files w (skipped @ file # rest) =
     (case buffer file of
        Inl e \<Rightarrow> Inl e
      | Inr content \<Rightarrow>
          (case JSON_parse w content of Inl e \<Rightarrow> Inl e | Inr v \<Rightarrow> Inr (Some v)))"
  by (induction skipped) simp_all

lemma fetch_artifact_not_found:
  "outputArtifactName inp = Some name \<Longrightarrow> name \<noteq> [] \<Longrightarrow>
   listWorkflowRunArtifacts w rid = Inr artifacts \<Longrightarrow>
   find (\<lambda>a. artifact_name a = name) artifacts = None \<Longrightarrow>
   fetch_artifact w inp rid =
     ([Log Info (FetchingArtifact name rid), Call (list_artifacts_request inp rid),
       Log Warn (ArtifactNotFound name)], Inr ())"
  by (simp add: fetch_artifact_def)

lemma fetch_artifact_download_error:
  "outputArtifactName inp = Some name \<Longrightarrow> name \<noteq> [] \<Longrightarrow>
   listWorkflowRunArtifacts w rid = Inr artifacts \<Longrightarrow>
   find (\<lambda>a. artifact_name a = name) artifacts = Some art \<Longrightarrow>
   downloadArtifact w (artifact_id art) = Inl e \<Longrightarrow>
   fetch_artifact w inp rid =
     ([Log Info (FetchingArtifact name rid), Call (list_artifacts_request inp rid),
       Call (download_request inp (artifact_id art))], Inl (RequestError e))"
  by (simp add: fetch_artifact_def)

lemma fetch_artifact_downloaded:
  "outputArtifactName inp = Some name \<Longrightarrow> name \<noteq> [] \<Longrightarrow>
   listWorkflowRunArtifacts w rid = Inr artifacts \<Longrightarrow>
   find (\<lambda>a. artifact_name a = name) artifacts = Some art \<Longrightarrow>
   downloadArtifact w (artifact_id art) = Inr zipData \<Longrightarrow>
   fetch_artifact w inp rid =
     ([Log Info (FetchingArtifact name rid), Call (list_artifacts_request inp rid),
       Call (download_request inp (artifact_id art))] @ fst (extract_output w zipData),
      Inr ())"
  by (simp add: fetch_artifact_def extract_output_quiet)

lemma extract_output_open_error:
  "Open_buffer w zipData = Inl e \<Longrightarrow>
   extract_output w zipData = ([Log Warn (ExtractFailed e)], Inr ())"
  by (simp add: extract_output_def try_extract_def emit_def)

lemma extract_output_scan_error:
  "Open_buffer w zipData = Inr files \<Longrightarrow> scan_files w files = Inl e \<Longrightarrow>
   extract_output w zipData = ([Log Warn (ExtractFailed e)], Inr ())"
  by (simp add: extract_output_def try_extract_def emit_def)

lemma extract_output_no_json:
  "Open_buffer w zipData = Inr files \<Longrightarrow> scan_files w files = Inr None \<Longrightarrow>
   extract_output w zipData = ([Log Warn NoJsonFile], Inr ())"
  by (simp add: extract_output_def try_extract_def emit_def)

lemma extract_output_falsy:
  "Open_buffer w zipData = Inr files \<Longrightarrow> scan_files w files = Inr (Some v) \<Longrightarrow>
   \<not> truthy v \<Longrightarrow>
   extract_output w zipData = ([Log Warn NoJsonFile], Inr ())"
  by (simp add: extract_output_def try_extract_def emit_def)

lemma extract_output_truthy:
  "Open_buffer w zipData = Inr files \<Longrightarrow> scan_files w files = Inr (Some v) \<Longrightarrow>
   truthy v \<Longrightarrow>
   extract_output w zipData = ([Log Info JsonParsed, Output (Outputs v)], Inr ())"
  by (simp add: extract_output_def try_extract_def emit_def)

text \<open>
  The handler once the run is found and seen completed: what it has set and warned about
  is the conclusion, then whatever the artifact phase sets and warns about.
\<close>

lemma handler_completed:
  assumes "resolved_token ev inp = Some tok" and "tok \<noteq> []"
    and "createWorkflowDispatch w = Inr ()" and "waitForCompletion inp = Some True"
    and "snd (find_workflow_run w inp 0) = Inr (Some sel)"
    and "snd (poll_completed w inp (run_id sel) 0) = Inr (Some runData)"
  shows "snd (handler w ev inp) = snd (fetch_artifact w inp (run_id sel))"
    and "outputs_of (fst (handler w ev inp)) =
           Conclusion (conclusion runData) # outputs_of (fst (fetch_artifact w inp (run_id sel)))"
    and "warnings (fst (handler w ev inp)) = warnings (fst (fetch_artifact w inp (run_id sel)))"
proof -
  from assms(6) have a: "await_run w inp sel =
     (found_prefix (run_id sel) @ fst (poll_completed w inp (run_id sel) 0) @
        [Log Info (RunCompleted (conclusion runData)), Output (Conclusion (conclusion runData))] @
        fst (fetch_artifact w inp (run_id sel)),
      snd (fetch_artifact w inp (run_id sel)))" by (rule await_run_completed)
  from assms(1-5) have h: "handler w ev inp =
     (waiting_prefix tok inp @ fst (find_workflow_run w inp 0) @ fst (await_run w inp sel),
      snd (await_run w inp sel))" by (rule handler_found)
  have q: "outputs_of (fst (poll_completed w inp (run_id sel) 0)) = []"
    "warnings (fst (poll_completed w inp (run_id sel) 0)) = []"
    using poll_quiet_from [OF refl, where a = 0 and w = w and inp = inp and rid = "run_id sel"]
    by simp_all
  from h a show "snd (handler w ev inp) = snd (fetch_artifact w inp (run_id sel))" by simp
  from h a show "outputs_of (fst (handler w ev inp)) =
           Conclusion (conclusion runData) # outputs_of (fst (fetch_artifact w inp (run_id sel)))"
    by (simp add: q find_quiet waiting_prefix_def dispatch_prefix_def found_prefix_def)
  from h a show "warnings (fst (handler w ev inp)) =
           warnings (fst (fetch_artifact w inp (run_id sel)))"
    by (simp add: q find_quiet waiting_prefix_def dispatch_prefix_def found_prefix_def)
qed

text \<open>
  Claim C9. In a handler run that reaches the archive: when the first entry whose path
  ends in \<open>.json\<close> is read and parsed without error and the value is \<open>false\<close>, \<open>0\<close>,
  \<open>null\<close> or the empty string, the handler returns normally, the only output set is
  \<open>conclusion\<close>, and the one warning logged is the line "No JSON file found inside output
  artifact ZIP".
\<close>

theorem falsy_json_reported_as_missing:
  assumes "resolved_token ev inp = Some tok" and "tok \<noteq> []"
    and "createWorkflowDispatch w = Inr ()" and "waitForCompletion inp = Some True"
    and "snd (find_workflow_run w inp 0) = Inr (Some sel)"
    and "snd (poll_completed w inp (run_id sel) 0) = Inr (Some runData)"
    and "outputArtifactName inp = Some name" and "name \<noteq> []"
    and "listWorkflowRunArtifacts w (run_id sel) = Inr artifacts"
    and "find (\<lambda>a. artifact_name a = name) artifacts = Some art"
    and "downloadArtifact w (artifact_id art) = Inr zipData"
    and "Open_buffer w zipData = Inr (skipped @ file # rest)"
    and "\<forall>f\<in>set skipped. \<not> endsWith (path f) ''.json''"
    and "endsWith (path file) ''.json''"
    and "buffer file = Inr content"
    and "JSON_parse w content = Inr v"
    and "v \<in> {JBool False, JNumber 0, JNull, JString []}"
  shows "snd (handler w ev inp) = Inr () \<and>
         outputs_of (fst (handler w ev inp)) = [Conclusion (conclusion runData)] \<and>
         warnings (fst (handler w ev inp)) = [NoJsonFile]"
proof -
  from assms(13-16) have "scan_files w (skipped @ file # rest) = Inr (Some v)"
    by (simp add: scan_files_first_json)
  moreover from assms(17) have "\<not> truthy v" by auto
  ultimately have "extract_output w zipData = ([Log Warn NoJsonFile], Inr ())"
    using assms(12) by (simp add: extract_output_falsy)
  with assms(7-11) have "fetch_artifact w inp (run_id sel) =
     ([Log Info (FetchingArtifact name (run_id sel)),
       Call (list_artifacts_request inp (run_id sel)),
       Call (download_request inp (artifact_id art)), Log Warn NoJsonFile], Inr ())"
    by (simp add: fetch_artifact_downloaded)
  with handler_completed [OF assms(1-6)] show ?thesis by simp
qed

theorem falsy_json_reported_as_missing_witness:
  "snd (handler (world_ex\<lparr>Open_buffer := \<lambda>b. Inr [\<lparr>path = ''README.md'', buffer = Inr ''hi''\<rparr>,
                    \<lparr>path = ''result.json'', buffer = Inr ''0''\<rparr>]\<rparr>) env_none inp_ex) = Inr () \<and>
   outputs_of (fst (handler (world_ex\<lparr>Open_buffer := \<lambda>b. Inr
                    [\<lparr>path = ''README.md'', buffer = Inr ''hi''\<rparr>,
                     \<lparr>path = ''result.json'', buffer = Inr ''0''\<rparr>]\<rparr>) env_none inp_ex))
     = [Conclusion (Some ''success'')] \<and>
   warnings (fst (handler (world_ex\<lparr>Open_buffer := \<lambda>b. Inr
                    [\<lparr>path = ''README.md'', buffer = Inr ''hi''\<rparr>,
                     \<lparr>path = ''result.json'', buffer = Inr ''0''\<rparr>]\<rparr>) env_none inp_ex))
     = [NoJsonFile]"
proof -
  let ?readme = "\<lparr>path = ''README.md'', buffer = Inr ''hi''\<rparr>"
  let ?json = "\<lparr>path = ''result.json'', buffer = Inr ''0''\<rparr>"
  let ?w = "world_ex\<lparr>Open_buffer := \<lambda>b. Inr [?readme, ?json]\<rparr>"
  have h1: "resolved_token env_none inp_ex = Some ''t0k''"
    by (simp add: resolved_token_cases ex_defs)
  have h2: "''t0k'' \<noteq> []" by simp
  have h3: "createWorkflowDispatch ?w = Inr ()" by (simp add: world_ex_def)
  have h4: "waitForCompletion inp_ex = Some True" by (simp add: inp_ex_def)
  have h5: "snd (find_workflow_run ?w inp_ex 0) = Inr (Some run_ex)"
    by (simp add: find_workflow_run.simps maxRunPollAttempts_def select_run_def ex_defs)
  have h6: "snd (poll_completed ?w inp_ex (run_id run_ex) 0) = Inr (Some run_done)"
    by (simp add: poll_completed.simps maxPollAttempts_def ex_defs)
  have h7: "outputArtifactName inp_ex = Some ''result''" by (simp add: inp_ex_def)
  have h8: "''result'' \<noteq> []" by simp
  have h9: "listWorkflowRunArtifacts ?w (run_id run_ex) = Inr [artifact_ex]"
    by (simp add: world_ex_def)
  have h10: "find (\<lambda>a. artifact_name a = ''result'') [artifact_ex] = Some artifact_ex"
    by (simp add: artifact_ex_def)
  have h11: "downloadArtifact ?w (artifact_id artifact_ex) = Inr ''PK''"
    by (simp add: world_ex_def)
  have h12: "Open_buffer ?w ''PK'' = Inr ([?readme] @ ?json # [])" by simp
  have h13: "\<forall>f\<in>set [?readme]. \<not> endsWith (path f) ''.json''" by (simp add: endsWith_def)
  have h14: "endsWith (path ?json) ''.json''" by (simp add: endsWith_def)
  have h15: "buffer ?json = Inr ''0''" by simp
  have h16: "JSON_parse ?w ''0'' = Inr (JNumber 0)" by (simp add: world_ex_def)
  have h17: "JNumber 0 \<in> {JBool False, JNumber 0, JNull, JString []}" by simp
  from falsy_json_reported_as_missing
    [OF h1 h2 h3 h4 h5 h6 h7 h8 h9 h10 h11 h12 h13 h14 h15 h16 h17]
  show ?thesis by (simp add: run_done_def run_ex_def)
qed

text \<open>
  Claim C1, as stated, fails for the archive download. The download request of line 180
  stands before the \<open>try\<close> of line 187, so its error is not caught. Here the run is
  found, seen completed, and the artifact \<open>result\<close> is in the list; the download request
  fails with status 500; the handler ends with that error, and no warning is logged.
\<close>

theorem download_failure_counterexample:
  "snd (find_workflow_run (world_ex\<lparr>downloadArtifact := \<lambda>aid. Inl (HttpError 500)\<rparr>) inp_ex 0)
     = Inr (Some run_ex) \<and>
   snd (poll_completed (world_ex\<lparr>downloadArtifact := \<lambda>aid. Inl (HttpError 500)\<rparr>) inp_ex 42 0)
     = Inr (Some run_done) \<and>
   waitForCompletion inp_ex = Some True \<and>
   outputArtifactName inp_ex = Some ''result'' \<and>
   listWorkflowRunArtifacts (world_ex\<lparr>downloadArtifact := \<lambda>aid. Inl (HttpError 500)\<rparr>) 42
     = Inr [artifact_ex] \<and>
   snd (handler (world_ex\<lparr>downloadArtifact := \<lambda>aid. Inl (HttpError 500)\<rparr>) env_none inp_ex)
     = Inl (RequestError (HttpError 500)) \<and>
   warnings
     (fst (handler (world_ex\<lparr>downloadArtifact := \<lambda>aid. Inl (HttpError 500)\<rparr>) env_none inp_ex))
     = []"
  by (simp add: run_defs ex_defs)

text \<open>
  Claim C1, amended. In a handler run that reaches the artifact phase (credential,
  dispatch request succeeded, \<open>waitForCompletion\<close> true, run found and seen completed,
  a non-empty \<open>outputArtifactName\<close>) and has received the artifact list, none of the
  following makes the handler fail: the requested name is not in the list; or the
  archive was downloaded and opening it throws, or reading or parsing the first
  \<open>.json\<close> entry throws, or no entry ends in \<open>.json\<close>. In each case the handler
  returns normally, the only output set is \<open>conclusion\<close>, and exactly one warning is
  logged. (An error of the download request itself is thrown on.)
\<close>

theorem extraction_failure_absorbed:
  assumes "resolved_token ev inp = Some tok" and "tok \<noteq> []"
    and "createWorkflowDispatch w = Inr ()" and "waitForCompletion inp = Some True"
    and "snd (find_workflow_run w inp 0) = Inr (Some sel)"
    and "snd (poll_completed w inp (run_id sel) 0) = Inr (Some runData)"
    and "outputArtifactName inp = Some name" and "name \<noteq> []"
    and "listWorkflowRunArtifacts w (run_id sel) = Inr artifacts"
    and "find (\<lambda>a. artifact_name a = name) artifacts = None \<or>
         (\<exists>art zipData.
            find (\<lambda>a. artifact_name a = name) artifacts = Some art \<and>
            downloadArtifact w (artifact_id art) = Inr zipData \<and>
            ((\<exists>e. Open_buffer w zipData = Inl e) \<or>
             (\<exists>files. Open_buffer w zipData = Inr files \<and>
                ((\<exists>e. scan_files w files = Inl e) \<or> scan_files w files = Inr None))))"
  shows "snd (handler w ev inp) = Inr () \<and>
         outputs_of (fst (handler w ev inp)) = [Conclusion (conclusion runData)] \<and>
         (\<exists>m. warnings (fst (handler w ev inp)) = [m])"
proof -
  let ?fetch = "fetch_artifact w inp (run_id sel)"
  have "snd ?fetch = Inr () \<and> outputs_of (fst ?fetch) = [] \<and> (\<exists>m. warnings (fst ?fetch) = [m])"
    using assms(10)
  proof (elim disjE exE conjE)
    assume "find (\<lambda>a. artifact_name a = name) artifacts = None"
    with assms(7-9) show ?thesis by (simp add: fetch_artifact_not_found)
  next
    fix art zipData e
    assume "find (\<lambda>a. artifact_name a = name) artifacts = Some art"
      and "downloadArtifact w (artifact_id art) = Inr zipData"
      and "Open_buffer w zipData = Inl e"
    with assms(7-9) show ?thesis
      by (simp add: fetch_artifact_downloaded extract_output_open_error)
  next
    fix art zipData files e
    assume "find (\<lambda>a. artifact_name a = name) artifacts = Some art"
      and "downloadArtifact w (artifact_id art) = Inr zipData"
      and "Open_buffer w zipData = Inr files" and "scan_files w files = Inl e"
    with assms(7-9) show ?thesis
      by (simp add: fetch_artifact_downloaded extract_output_scan_error)
  next
    fix art zipData files
    assume "find (\<lambda>a. artifact_name a = name) artifacts = Some art"
      and "downloadArtifact w (artifact_id art) = Inr zipData"
      and "Open_buffer w zipData = Inr files" and "scan_files w files = Inr None"
    with assms(7-9) show ?thesis
      by (simp add: fetch_artifact_downloaded extract_output_no_json)
  qed
  with handler_completed [OF assms(1-6)] show ?thesis by simp
qed

theorem extraction_failure_absorbed_witness:
  "snd (handler (world_ex\<lparr>Open_buffer := \<lambda>b. Inl (JsError ''bad zip'')\<rparr>) env_none inp_ex)
     = Inr () \<and>
   outputs_of (fst (handler (world_ex\<lparr>Open_buffer := \<lambda>b. Inl (JsError ''bad zip'')\<rparr>)
     env_none inp_ex)) = [Conclusion (Some ''success'')] \<and>
   (\<exists>m. warnings (fst (handler (world_ex\<lparr>Open_buffer := \<lambda>b. Inl (JsError ''bad zip'')\<rparr>)
     env_none inp_ex)) = [m])"
proof -
  let ?w = "world_ex\<lparr>Open_buffer := \<lambda>b. Inl (JsError ''bad zip'')\<rparr>"
  have h1: "resolved_token env_none inp_ex = Some ''t0k''"
    by (simp add: resolved_token_cases ex_defs)
  have h2: "''t0k'' \<noteq> []" by simp
  have h3: "createWorkflowDispatch ?w = Inr ()" by (simp add: world_ex_def)
  have h4: "waitForCompletion inp_ex = Some True" by (simp add: inp_ex_def)
  have h5: "snd (find_workflow_run ?w inp_ex 0) = Inr (Some run_ex)"
    by (simp add: find_workflow_run.simps maxRunPollAttempts_def select_run_def ex_defs)
  have h6: "snd (poll_completed ?w inp_ex (run_id run_ex) 0) = Inr (Some run_done)"
    by (simp add: poll_completed.simps maxPollAttempts_def ex_defs)
  have h7: "outputArtifactName inp_ex = Some ''result''" by (simp add: inp_ex_def)
  have h8: "''result'' \<noteq> []" by simp
  have h9: "listWorkflowRunArtifacts ?w (run_id run_ex) = Inr [artifact_ex]"
    by (simp add: world_ex_def)
  have h10: "find (\<lambda>a. artifact_name a = ''result'') [artifact_ex] = None \<or>
         (\<exists>art zipData.
            find (\<lambda>a. artifact_name a = ''result'') [artifact_ex] = Some art \<and>
            downloadArtifact ?w (artifact_id art) = Inr zipData \<and>
            ((\<exists>e. Open_buffer ?w zipData = Inl e) \<or>
             (\<exists>files. Open_buffer ?w zipData = Inr files \<and>
                ((\<exists>e. scan_files ?w files = Inl e) \<or> scan_files ?w files = Inr None))))"
    by (simp add: artifact_ex_def world_ex_def)
  from extraction_failure_absorbed [OF h1 h2 h3 h4 h5 h6 h7 h8 h9 h10]
  show ?thesis by (simp add: run_done_def run_ex_def)
qed

subsection \<open>Run discovery and the page size\<close>

lemma find_error_from:
  "maxRunPollAttempts - i = n \<Longrightarrow> snd (find_workflow_run w inp i) = Inl e \<Longrightarrow>
   \<exists>re. e = RequestError re"
proof (induction n arbitrary: i)
  case 0
  then show ?case by (simp add: find_workflow_run_exhausted)
next
  case (Suc n)
  then have lt: "i < maxRunPollAttempts" by simp
  show ?case
  proof (cases "listWorkflowRuns w i")
    case (Inl re)
    with lt Suc.prems(2) show ?thesis by (auto simp: find_workflow_run_error)
  next
    case (Inr runs)
    show ?thesis
    proof (cases "select_run w inp runs")
      case None
      with lt Inr Suc.prems(2) have "snd (find_workflow_run w inp (Suc i)) = Inl e"
        by (simp add: find_workflow_run_retry)
      moreover from Suc.prems(1) have "maxRunPollAttempts - Suc i = n" by simp
      ultimately show ?thesis using Suc.IH by blast
    next
      case (Some sel)
      with lt Inr Suc.prems(2) show ?thesis by (simp add: find_workflow_run_found)
    qed
  qed
qed

lemma find_none_conv_from:
  "maxRunPollAttempts - i = n \<Longrightarrow> snd (find_workflow_run w inp i) = Inr None \<Longrightarrow>
   \<forall>j. i \<le> j \<and> j < maxRunPollAttempts \<longrightarrow>
     (\<exists>runs. listWorkflowRuns w j = Inr runs \<and> select_run w inp runs = None)"
proof (induction n arbitrary: i)
  case 0
  then show ?case by auto
next
  case (Suc n)
  then have lt: "i < maxRunPollAttempts" by simp
  show ?case
  proof (cases "listWorkflowRuns w i")
    case (Inl re)
    with lt Suc.prems(2) show ?thesis by (simp add: find_workflow_run_error)
  next
    case (Inr runs)
    show ?thesis
    proof (cases "select_run w inp runs")
      case None
      from Suc.prems(1) have "maxRunPollAttempts - Suc i = n" by simp
      moreover from lt Inr None Suc.prems(2)
      have "snd (find_workflow_run w inp (Suc i)) = Inr None"
        by (simp add: find_workflow_run_retry)
      ultimately have ih: "\<forall>j. Suc i \<le> j \<and> j < maxRunPollAttempts \<longrightarrow>
        (\<exists>runs. listWorkflowRuns w j = Inr runs \<and> select_run w inp runs = None)"
        by (rule Suc.IH)
      show ?thesis
      proof (intro allI impI)
        fix j assume j: "i \<le> j \<and> j < maxRunPollAttempts"
        show "\<exists>runs. listWorkflowRuns w j = Inr runs \<and> select_run w inp runs = None"
        proof (cases "j = i")
          case True
          with Inr None show ?thesis by simp
        next
          case False
          with j have "Suc i \<le> j \<and> j < maxRunPollAttempts" by simp
          with ih show ?thesis by blast
        qed
      qed
    next
      case (Some sel)
      with lt Inr Suc.prems(2) show ?thesis by (simp add: find_workflow_run_found)
    qed
  qed
qed

lemma find_none_iff:
  "snd (find_workflow_run w inp 0) = Inr None \<longleftrightarrow>
     (\<forall>i<12. \<exists>runs. listWorkflowRuns w i = Inr runs \<and>
        (\<forall>run\<in>set runs. head_branch run \<noteq> Some (branchOrTagName inp)))"
proof
  assume "snd (find_workflow_run w inp 0) = Inr None"
  with find_none_conv_from [OF refl, where i = 0 and w = w and inp = inp]
  have "\<forall>j. 0 \<le> j \<and> j < maxRunPollAttempts \<longrightarrow>
     (\<exists>runs. listWorkflowRuns w j = Inr runs \<and> select_run w inp runs = None)" by blast
  then show "\<forall>i<12. \<exists>runs. listWorkflowRuns w i = Inr runs \<and>
        (\<forall>run\<in>set runs. head_branch run \<noteq> Some (branchOrTagName inp))"
    by (simp add: maxRunPollAttempts_def select_run_None_iff)
next
  assume "\<forall>i<12. \<exists>runs. listWorkflowRuns w i = Inr runs \<and>
        (\<forall>run\<in>set runs. head_branch run \<noteq> Some (branchOrTagName inp))"
  then show "snd (find_workflow_run w inp 0) = Inr None" by (simp add: find_no_match)
qed

lemma poll_error_from:
  "maxPollAttempts - a = n \<Longrightarrow> snd (poll_completed w inp rid a) = Inl e \<Longrightarrow>
   \<exists>re. e = RequestError re"
proof (induction n arbitrary: a)
  case 0
  then show ?case by (simp add: poll_completed_exhausted)
next
  case (Suc n)
  then have lt: "a < maxPollAttempts" by simp
  show ?case
  proof (cases "getWorkflowRun w rid a")
    case (Inl re)
    with lt Suc.prems(2) show ?thesis by (auto simp: poll_completed_error)
  next
    case (Inr run)
    show ?thesis
    proof (cases "status run = Some ''completed''")
      case True
      with lt Inr Suc.prems(2) show ?thesis by (simp add: poll_completed_done)
    next
      case False
      with lt Inr Suc.prems(2) have "snd (poll_completed w inp rid (Suc a)) = Inl e"
        by (simp add: poll_completed_wait)
      moreover from Suc.prems(1) have "maxPollAttempts - Suc a = n" by simp
      ultimately show ?thesis using Suc.IH by blast
    qed
  qed
qed

lemma fetch_artifact_result:
  "snd (fetch_artifact w inp rid) = Inr () \<or>
   (\<exists>re. snd (fetch_artifact w inp rid) = Inl (RequestError re))"
proof (cases "outputArtifactName inp")
  case None
  then show ?thesis by (simp add: fetch_artifact_def)
next
  case (Some name)
  show ?thesis
  proof (cases "name = []")
    case True
    with Some show ?thesis by (simp add: fetch_artifact_def)
  next
    case False
    show ?thesis
    proof (cases "listWorkflowRunArtifacts w rid")
      case (Inl e)
      with Some False show ?thesis by (simp add: fetch_artifact_def)
    next
      case (Inr artifacts)
      show ?thesis
      proof (cases "find (\<lambda>a. artifact_name a = name) artifacts")
        case None
        with Some False Inr show ?thesis by (simp add: fetch_artifact_not_found)
      next
        case (Some art)
        with \<open>outputArtifactName inp = Some name\<close> False Inr show ?thesis
          by (cases "downloadArtifact w (artifact_id art)")
            (simp_all add: fetch_artifact_download_error fetch_artifact_downloaded)
      qed
    qed
  qed
qed

text \<open>Once a run is found, the handler does not end with \<open>RunNotFoundError\<close>.\<close>

lemma await_run_result: "snd (await_run w inp sel) \<noteq> Inl RunNotFoundError"
proof (cases "snd (poll_completed w inp (run_id sel) 0)")
  case (Inl e)
  with poll_error_from [OF refl] obtain re where "e = RequestError re" by blast
  with Inl show ?thesis by (simp add: await_run_poll_error)
next
  case (Inr completed)
  show ?thesis
  proof (cases completed)
    case None
    with Inr show ?thesis by (simp add: await_run_timeout)
  next
    case (Some runData)
    with Inr have "snd (await_run w inp sel) = snd (fetch_artifact w inp (run_id sel))"
      by (simp add: await_run_completed)
    with fetch_artifact_result [of w inp "run_id sel"] show ?thesis by auto
  qed
qed

lemma handler_run_not_found_iff:
  assumes "resolved_token ev inp = Some tok" and "tok \<noteq> []"
    and "createWorkflowDispatch w = Inr ()" and "waitForCompletion inp = Some True"
  shows "snd (handler w ev inp) = Inl RunNotFoundError \<longleftrightarrow>
         snd (find_workflow_run w inp 0) = Inr None"
proof (cases "snd (find_workflow_run w inp 0)")
  case (Inl e)
  with find_error_from [OF refl] obtain re where "e = RequestError re" by blast
  with assms Inl show ?thesis by (simp add: handler_discovery_error)
next
  case (Inr found)
  show ?thesis
  proof (cases found)
    case None
    with assms Inr show ?thesis by (simp add: handler_not_found)
  next
    case (Some sel)
    with assms Inr show ?thesis by (simp add: handler_found await_run_result)
  qed
qed

text \<open>
  Claim C10, as stated, fails: a run that is in none of the pages returned is indeed
  never selected, but the handler does not then end with \<open>RunNotFoundError\<close> when the
  pages hold another run with the requested head ref. Here every listing returns the one
  run 42 on \<open>main\<close>; run 99 on \<open>main\<close> is in no page; the handler takes run 42 and
  returns normally.
\<close>

theorem unlisted_run_counterexample:
  "head_branch (run_ex\<lparr>run_id := 99\<rparr>) = Some (branchOrTagName inp_ex) \<and>
   map (listWorkflowRuns world_ex) [0..<12] = replicate 12 (Inr [run_ex]) \<and>
   run_ex\<lparr>run_id := 99\<rparr> \<notin> set [run_ex] \<and>
   length [run_ex] \<le> 5 \<and>
   snd (find_workflow_run world_ex inp_ex 0) = Inr (Some run_ex) \<and>
   snd (handler world_ex env_none inp_ex) = Inr ()"
proof -
  have "map (listWorkflowRuns world_ex) [0..<12] = replicate 12 (Inr [run_ex])"
    by (simp add: world_ex_def map_replicate_const)
  moreover have "snd (find_workflow_run world_ex inp_ex 0) = Inr (Some run_ex)"
    by (simp add: run_defs ex_defs)
  ultimately show ?thesis
    by (simp add: handler_world_ex) (simp add: run_ex_def inp_ex_def)
qed

text \<open>
  Claim C10, amended. Every request of the discovery loop asks for 5 runs
  (\<open>per_page = 5\<close>), and the run the loop selects is always one of the runs of a page
  returned on one of the 12 attempts, so a run that is in none of these pages is never
  selected. With a credential, a successful dispatch request and \<open>waitForCompletion\<close>
  true, the handler ends with \<open>RunNotFoundError\<close> exactly when each of the 12 listings
  returns a page that holds no run with the requested head ref, whatever runs exist on
  the remote side; it has then sent the dispatch request and 12 such listing requests.
  When instead some attempt is the first whose page holds a run with the requested head
  ref, a run of that page with that head ref is selected, the handler carries on with
  that run, and it does not end with \<open>RunNotFoundError\<close>.
\<close>

theorem discovery_sees_only_listed_runs:
  "set (calls (fst (find_workflow_run w inp 0))) \<subseteq>
     {ListWorkflowRuns (owner inp) (repo inp) (workflowId inp) ''workflow_dispatch''
        (branchOrTagName inp) 5} \<and>
   (\<forall>sel. snd (find_workflow_run w inp 0) = Inr (Some sel) \<longrightarrow>
      (\<exists>i<12. \<exists>runs. listWorkflowRuns w i = Inr runs \<and> sel \<in> set runs \<and>
         head_branch sel = Some (branchOrTagName inp))) \<and>
   (resolved_token ev inp = Some tok \<and> tok \<noteq> [] \<and> createWorkflowDispatch w = Inr () \<and>
    waitForCompletion inp = Some True \<longrightarrow>
    (snd (handler w ev inp) = Inl RunNotFoundError \<longleftrightarrow>
       (\<forall>i<12. \<exists>runs. listWorkflowRuns w i = Inr runs \<and>
          (\<forall>run\<in>set runs. head_branch run \<noteq> Some (branchOrTagName inp)))) \<and>
    ((\<forall>i<12. \<exists>runs. listWorkflowRuns w i = Inr runs \<and>
        (\<forall>run\<in>set runs. head_branch run \<noteq> Some (branchOrTagName inp))) \<longrightarrow>
     calls (fst (handler w ev inp)) =
       CreateWorkflowDispatch (owner inp) (repo inp) (workflowId inp) (branchOrTagName inp)
         (workflowInputs inp) #
       replicate 12
         (ListWorkflowRuns (owner inp) (repo inp) (workflowId inp) ''workflow_dispatch''
            (branchOrTagName inp) 5)) \<and>
    (\<forall>k page.
       k < 12 \<and>
       (\<forall>i<k. \<exists>runs. listWorkflowRuns w i = Inr runs \<and>
          (\<forall>run\<in>set runs. head_branch run \<noteq> Some (branchOrTagName inp))) \<and>
       listWorkflowRuns w k = Inr page \<and>
       (\<exists>run\<in>set page. head_branch run = Some (branchOrTagName inp)) \<longrightarrow>
       (\<exists>sel\<in>set page.
          head_branch sel = Some (branchOrTagName inp) \<and>
          snd (find_workflow_run w inp 0) = Inr (Some sel) \<and>
          (\<exists>before. fst (handler w ev inp) = before @ fst (await_run w inp sel)) \<and>
          snd (handler w ev inp) = snd (await_run w inp sel) \<and>
          snd (handler w ev inp) \<noteq> Inl RunNotFoundError)))"
proof (intro conjI)
  show "set (calls (fst (find_workflow_run w inp 0))) \<subseteq>
     {ListWorkflowRuns (owner inp) (repo inp) (workflowId inp) ''workflow_dispatch''
        (branchOrTagName inp) 5}"
    using find_calls [of w inp 0] by (simp add: list_runs_request_def)
next
  show "\<forall>sel. snd (find_workflow_run w inp 0) = Inr (Some sel) \<longrightarrow>
      (\<exists>i<12. \<exists>runs. listWorkflowRuns w i = Inr runs \<and> sel \<in> set runs \<and>
         head_branch sel = Some (branchOrTagName inp))"
    by (intro allI impI) (rule find_selected)
next
  let ?none = "\<forall>i<12. \<exists>runs. listWorkflowRuns w i = Inr runs \<and>
          (\<forall>run\<in>set runs. head_branch run \<noteq> Some (branchOrTagName inp))"
  show "resolved_token ev inp = Some tok \<and> tok \<noteq> [] \<and> createWorkflowDispatch w = Inr () \<and>
    waitForCompletion inp = Some True \<longrightarrow>
    (snd (handler w ev inp) = Inl RunNotFoundError \<longleftrightarrow> ?none) \<and>
    (?none \<longrightarrow>
     calls (fst (handler w ev inp)) =
       CreateWorkflowDispatch (owner inp) (repo inp) (workflowId inp) (branchOrTagName inp)
         (workflowInputs inp) #
       replicate 12
         (ListWorkflowRuns (owner inp) (repo inp) (workflowId inp) ''workflow_dispatch''
            (branchOrTagName inp) 5)) \<and>
    (\<forall>k page.
       k < 12 \<and>
       (\<forall>i<k. \<exists>runs. listWorkflowRuns w i = Inr runs \<and>
          (\<forall>run\<in>set runs. head_branch run \<noteq> Some (branchOrTagName inp))) \<and>
       listWorkflowRuns w k = Inr page \<and>
       (\<exists>run\<in>set page. head_branch run = Some (branchOrTagName inp)) \<longrightarrow>
       (\<exists>sel\<in>set page.
          head_branch sel = Some (branchOrTagName inp) \<and>
          snd (find_workflow_run w inp 0) = Inr (Some sel) \<and>
          (\<exists>before. fst (handler w ev inp) = before @ fst (await_run w inp sel)) \<and>
          snd (handler w ev inp) = snd (await_run w inp sel) \<and>
          snd (handler w ev inp) \<noteq> Inl RunNotFoundError))"
  proof (intro impI conjI allI)
    assume c: "resolved_token ev inp = Some tok \<and> tok \<noteq> [] \<and>
      createWorkflowDispatch w = Inr () \<and> waitForCompletion inp = Some True"
    then have c1: "resolved_token ev inp = Some tok" and c2: "tok \<noteq> []"
      and c3: "createWorkflowDispatch w = Inr ()" and c4: "waitForCompletion inp = Some True"
      by simp_all
    show "snd (handler w ev inp) = Inl RunNotFoundError \<longleftrightarrow> ?none"
      using handler_run_not_found_iff [OF c1 c2 c3 c4] by (simp add: find_none_iff)
    {
      assume n: ?none
      then have f: "find_workflow_run w inp 0 =
        (concat (replicate 12 (discovery_round inp)), Inr None)" by (rule find_no_match)
      then have "snd (find_workflow_run w inp 0) = Inr None" by simp
      with c1 c2 c3 c4 have h: "handler w ev inp =
         (waiting_prefix tok inp @ fst (find_workflow_run w inp 0), Inl RunNotFoundError)"
        by (rule handler_not_found)
      from h f show "calls (fst (handler w ev inp)) =
         CreateWorkflowDispatch (owner inp) (repo inp) (workflowId inp) (branchOrTagName inp)
           (workflowInputs inp) #
         replicate 12
           (ListWorkflowRuns (owner inp) (repo inp) (workflowId inp) ''workflow_dispatch''
              (branchOrTagName inp) 5)"
        by (simp add: waiting_prefix_def dispatch_prefix_def calls_rounds
            dispatch_request_def list_runs_request_def)
    }
    {
      fix k page
      assume a: "k < 12 \<and>
         (\<forall>i<k. \<exists>runs. listWorkflowRuns w i = Inr runs \<and>
            (\<forall>run\<in>set runs. head_branch run \<noteq> Some (branchOrTagName inp))) \<and>
         listWorkflowRuns w k = Inr page \<and>
         (\<exists>run\<in>set page. head_branch run = Some (branchOrTagName inp))"
      then have "select_run w inp page \<noteq> None" by (simp add: select_run_None_iff)
      then obtain sel where sel: "select_run w inp page = Some sel" by blast
      have "k - 0 = k" "0 \<le> k" by simp_all
      moreover from a have "k < maxRunPollAttempts" by (simp add: maxRunPollAttempts_def)
      moreover from a have "\<forall>j. 0 \<le> j \<and> j < k \<longrightarrow>
         (\<exists>runs. listWorkflowRuns w j = Inr runs \<and> select_run w inp runs = None)"
        by (simp add: select_run_None_iff)
      moreover from a have "listWorkflowRuns w k = Inr page" by simp
      ultimately have "find_workflow_run w inp 0 =
         (concat (replicate k (discovery_round inp)) @ [Call (list_runs_request inp)],
          Inr (Some sel))"
        using sel by (rule find_some_from)
      then have f: "snd (find_workflow_run w inp 0) = Inr (Some sel)" by simp
      with c1 c2 c3 c4 have h: "handler w ev inp =
         (waiting_prefix tok inp @ fst (find_workflow_run w inp 0) @ fst (await_run w inp sel),
          snd (await_run w inp sel))" by (rule handler_found)
      from h have "fst (handler w ev inp) =
          (waiting_prefix tok inp @ fst (find_workflow_run w inp 0)) @ fst (await_run w inp sel)"
        by simp
      then have "\<exists>before. fst (handler w ev inp) = before @ fst (await_run w inp sel)" ..
      moreover from h have "snd (handler w ev inp) = snd (await_run w inp sel)" by simp
      moreover from this have "snd (handler w ev inp) \<noteq> Inl RunNotFoundError"
        by (simp add: await_run_result)
      moreover from sel have "sel \<in> set page" "head_branch sel = Some (branchOrTagName inp)"
        by (rule select_run_Some)+
      ultimately show "\<exists>sel\<in>set page.
          head_branch sel = Some (branchOrTagName inp) \<and>
          snd (find_workflow_run w inp 0) = Inr (Some sel) \<and>
          (\<exists>before. fst (handler w ev inp) = before @ fst (await_run w inp sel)) \<and>
          snd (handler w ev inp) = snd (await_run w inp sel) \<and>
          snd (handler w ev inp) \<noteq> Inl RunNotFoundError"
        using f by blast
    }
  qed
qed

theorem discovery_sees_only_listed_runs_witness:
  "(\<exists>i<12. \<exists>runs. listWorkflowRuns world_ex i = Inr runs \<and> run_ex \<in> set runs \<and>
      head_branch run_ex = Some (branchOrTagName inp_ex)) \<and>
   snd (handler world_ex env_none inp_ex) = snd (await_run world_ex inp_ex run_ex) \<and>
   snd (handler world_ex env_none inp_ex) \<noteq> Inl RunNotFoundError \<and>
   snd (handler (world_ex\<lparr>listWorkflowRuns := \<lambda>i. Inr []\<rparr>) env_none inp_ex)
     = Inl RunNotFoundError \<and>
   calls (fst (handler (world_ex\<lparr>listWorkflowRuns := \<lambda>i. Inr []\<rparr>) env_none inp_ex)) =
     CreateWorkflowDispatch ''acme'' ''app'' (WorkflowFile ''ci.yml'') ''main'' None #
     replicate 12
       (ListWorkflowRuns ''acme'' ''app'' (WorkflowFile ''ci.yml'') ''workflow_dispatch''
          ''main'' 5)"
proof -
  note t1 = discovery_sees_only_listed_runs
    [where w = world_ex and inp = inp_ex and ev = env_none and tok = "''t0k''"]
  have cred1: "resolved_token env_none inp_ex = Some ''t0k'' \<and> ''t0k'' \<noteq> [] \<and>
      createWorkflowDispatch world_ex = Inr () \<and> waitForCompletion inp_ex = Some True"
    by (simp add: resolved_token_cases ex_defs)
  have f: "snd (find_workflow_run world_ex inp_ex 0) = Inr (Some run_ex)"
    by (simp add: run_defs ex_defs)
  from t1 f
  have a: "\<exists>i<12. \<exists>runs. listWorkflowRuns world_ex i = Inr runs \<and> run_ex \<in> set runs \<and>
      head_branch run_ex = Some (branchOrTagName inp_ex)"
    by blast
  have first: "(0::nat) < 12 \<and>
       (\<forall>i<0. \<exists>runs. listWorkflowRuns world_ex i = Inr runs \<and>
          (\<forall>run\<in>set runs. head_branch run \<noteq> Some (branchOrTagName inp_ex))) \<and>
       listWorkflowRuns world_ex 0 = Inr [run_ex] \<and>
       (\<exists>run\<in>set [run_ex]. head_branch run = Some (branchOrTagName inp_ex))"
    by (simp add: ex_defs)
  from t1 cred1 have "\<forall>k page.
       k < 12 \<and>
       (\<forall>i<k. \<exists>runs. listWorkflowRuns world_ex i = Inr runs \<and>
          (\<forall>run\<in>set runs. head_branch run \<noteq> Some (branchOrTagName inp_ex))) \<and>
       listWorkflowRuns world_ex k = Inr page \<and>
       (\<exists>run\<in>set page. head_branch run = Some (branchOrTagName inp_ex)) \<longrightarrow>
       (\<exists>sel\<in>set page.
          head_branch sel = Some (branchOrTagName inp_ex) \<and>
          snd (find_workflow_run world_ex inp_ex 0) = Inr (Some sel) \<and>
          (\<exists>before. fst (handler world_ex env_none inp_ex) =
             before @ fst (await_run world_ex inp_ex sel)) \<and>
          snd (handler world_ex env_none inp_ex) = snd (await_run world_ex inp_ex sel) \<and>
          snd (handler world_ex env_none inp_ex) \<noteq> Inl RunNotFoundError)"
    by blast
  with first have "\<exists>sel\<in>set [run_ex].
          head_branch sel = Some (branchOrTagName inp_ex) \<and>
          snd (find_workflow_run world_ex inp_ex 0) = Inr (Some sel) \<and>
          (\<exists>before. fst (handler world_ex env_none inp_ex) =
             before @ fst (await_run world_ex inp_ex sel)) \<and>
          snd (handler world_ex env_none inp_ex) = snd (await_run world_ex inp_ex sel) \<and>
          snd (handler world_ex env_none inp_ex) \<noteq> Inl RunNotFoundError"
    by blast
  then have c: "snd (handler world_ex env_none inp_ex) = snd (await_run world_ex inp_ex run_ex)"
    and d: "snd (handler world_ex env_none inp_ex) \<noteq> Inl RunNotFoundError"
    by auto
  let ?w = "world_ex\<lparr>listWorkflowRuns := \<lambda>i. Inr []\<rparr>"
  note t2 = discovery_sees_only_listed_runs
    [where w = ?w and inp = inp_ex and ev = env_none and tok = "''t0k''"]
  have cred2: "resolved_token env_none inp_ex = Some ''t0k'' \<and> ''t0k'' \<noteq> [] \<and>
      createWorkflowDispatch ?w = Inr () \<and> waitForCompletion inp_ex = Some True"
    by (simp add: resolved_token_cases ex_defs)
  have none: "\<forall>i<12. \<exists>runs. listWorkflowRuns ?w i = Inr runs \<and>
         (\<forall>run\<in>set runs. head_branch run \<noteq> Some (branchOrTagName inp_ex))"
    by simp
  from t2 cred2 none
  have b: "snd (handler ?w env_none inp_ex) = Inl RunNotFoundError \<and>
    calls (fst (handler ?w env_none inp_ex)) =
      CreateWorkflowDispatch (owner inp_ex) (repo inp_ex) (workflowId inp_ex)
        (branchOrTagName inp_ex) (workflowInputs inp_ex) #
      replicate 12
        (ListWorkflowRuns (owner inp_ex) (repo inp_ex) (workflowId inp_ex) ''workflow_dispatch''
           (branchOrTagName inp_ex) 5)"
    by blast
  from a b c d show ?thesis by (simp add: inp_ex_def)
qed

end
